theory Spec2Isabelle
  imports Complex_Main
begin

section \<open>Tensor elements\<close>

text \<open>
  The planner of \<^verbatim>\<open>mppiisaac/planner/mppi.py\<close> computes on torch tensors of floating-point
  numbers. An element is modelled as an exact real number or one of the three IEEE special
  values: arithmetic on finite values is exact (no rounding, no overflow, one unsigned zero),
  and the special values follow the IEEE rules (\<open>inf - inf\<close>, \<open>0 * inf\<close> and \<open>0 / 0\<close>
  are NaN, NaN is absorbing, every comparison with NaN is false).
\<close>

datatype tval = Fin real | PInf | NInf | NaN

instantiation tval :: "{zero, one, plus, uminus, minus, times, divide, abs, ord}"
begin

definition zero_tval :: tval where
  "zero_tval = Fin 0"

definition one_tval :: tval where
  "one_tval = Fin 1"

fun plus_tval :: "tval \<Rightarrow> tval \<Rightarrow> tval" where
  "plus_tval (Fin a) (Fin b) = Fin (a + b)"
| "plus_tval NaN _ = NaN"
| "plus_tval _ NaN = NaN"
| "plus_tval PInf NInf = NaN"
| "plus_tval NInf PInf = NaN"
| "plus_tval PInf _ = PInf"
| "plus_tval _ PInf = PInf"
| "plus_tval NInf _ = NInf"
| "plus_tval _ NInf = NInf"

fun uminus_tval :: "tval \<Rightarrow> tval" where
  "uminus_tval (Fin a) = Fin (- a)"
| "uminus_tval PInf = NInf"
| "uminus_tval NInf = PInf"
| "uminus_tval NaN = NaN"

definition minus_tval :: "tval \<Rightarrow> tval \<Rightarrow> tval" where
  "minus_tval x y = x + (- y)"

fun times_tval :: "tval \<Rightarrow> tval \<Rightarrow> tval" where
  "times_tval (Fin a) (Fin b) = Fin (a * b)"
| "times_tval NaN _ = NaN"
| "times_tval _ NaN = NaN"
| "times_tval PInf (Fin b) = (if b = 0 then NaN else if 0 < b then PInf else NInf)"
| "times_tval NInf (Fin b) = (if b = 0 then NaN else if 0 < b then NInf else PInf)"
| "times_tval (Fin a) PInf = (if a = 0 then NaN else if 0 < a then PInf else NInf)"
| "times_tval (Fin a) NInf = (if a = 0 then NaN else if 0 < a then NInf else PInf)"
| "times_tval PInf PInf = PInf"
| "times_tval PInf NInf = NInf"
| "times_tval NInf PInf = NInf"
| "times_tval NInf NInf = PInf"

fun divide_tval :: "tval \<Rightarrow> tval \<Rightarrow> tval" where
  "divide_tval (Fin a) (Fin b) =
     (if b \<noteq> 0 then Fin (a / b)
      else if a = 0 then NaN else if 0 < a then PInf else NInf)"
| "divide_tval NaN _ = NaN"
| "divide_tval _ NaN = NaN"
| "divide_tval (Fin a) _ = Fin 0"
| "divide_tval PInf (Fin b) = (if 0 \<le> b then PInf else NInf)"
| "divide_tval NInf (Fin b) = (if 0 \<le> b then NInf else PInf)"
| "divide_tval _ _ = NaN"

fun abs_tval :: "tval \<Rightarrow> tval" where
  "abs_tval (Fin a) = Fin \<bar>a\<bar>"
| "abs_tval PInf = PInf"
| "abs_tval NInf = PInf"
| "abs_tval NaN = NaN"

fun less_eq_tval :: "tval \<Rightarrow> tval \<Rightarrow> bool" where
  "less_eq_tval (Fin a) (Fin b) = (a \<le> b)"
| "less_eq_tval NaN _ = False"
| "less_eq_tval _ NaN = False"
| "less_eq_tval NInf _ = True"
| "less_eq_tval _ PInf = True"
| "less_eq_tval _ _ = False"

fun less_tval :: "tval \<Rightarrow> tval \<Rightarrow> bool" where
  "less_tval (Fin a) (Fin b) = (a < b)"
| "less_tval NaN _ = False"
| "less_tval _ NaN = False"
| "less_tval NInf NInf = False"
| "less_tval PInf PInf = False"
| "less_tval NInf _ = True"
| "less_tval _ PInf = True"
| "less_tval _ _ = False"

instance ..

end

instantiation tval :: inverse
begin

definition inverse_tval :: "tval \<Rightarrow> tval" where
  "inverse_tval x = Fin 1 div x"

instance ..

end

text \<open>Addition is associative and commutative also on the special values, so sums over a
  tensor do not depend on the order of summation.\<close>

instance tval :: comm_monoid_add
proof (standard, goal_cases)
  case (1 x y z)
  show ?case by (cases x; cases y; cases z) simp_all
next
  case (2 x y)
  show ?case by (cases x; cases y) simp_all
next
  case (3 x)
  show ?case by (cases x) (simp_all add: zero_tval_def)
qed

text \<open>\<^verbatim>\<open>torch.exp\<close>, and the element-wise \<^verbatim>\<open>torch.min\<close> and \<^verbatim>\<open>torch.max\<close>, which return NaN
  when either argument is NaN.\<close>

fun texp :: "tval \<Rightarrow> tval" where
  "texp (Fin a) = Fin (exp a)"
| "texp PInf = PInf"
| "texp NInf = Fin 0"
| "texp NaN = NaN"

definition tmin :: "tval \<Rightarrow> tval \<Rightarrow> tval" where
  "tmin a b = (if a = NaN \<or> b = NaN then NaN else if a \<le> b then a else b)"

definition tmax :: "tval \<Rightarrow> tval \<Rightarrow> tval" where
  "tmax a b = (if a = NaN \<or> b = NaN then NaN else if a \<le> b then b else a)"

fun is_fin :: "tval \<Rightarrow> bool" where
  "is_fin (Fin _) = True"
| "is_fin _ = False"

fun the_fin :: "tval \<Rightarrow> real" where
  "the_fin (Fin a) = a"
| "the_fin _ = 0"

section \<open>Errors\<close>

text \<open>Every exception the planner can raise is a value; \<open>Inl\<close> carries it.\<close>

datatype error =
    AssertionError
  | ValueError
  | RuntimeError
  | IndexError
  | ZeroDivisionError
  | CollaboratorError

definition ebind :: "error + 'a \<Rightarrow> ('a \<Rightarrow> error + 'b) \<Rightarrow> error + 'b" where
  "ebind m f = (case m of Inl e \<Rightarrow> Inl e | Inr x \<Rightarrow> f x)"

section \<open>Importance weights (lines 168 to 172 of \<^verbatim>\<open>command\<close>)\<close>

text \<open>\<^verbatim>\<open>torch.min(cost_total)\<close>: the full reduction raises on a tensor without elements.\<close>

definition torch_min :: "tval list \<Rightarrow> error + tval" where
  "torch_min xs = (case xs of [] \<Rightarrow> Inl RuntimeError | x # rest \<Rightarrow> Inr (foldl tmin x rest))"

text \<open>\<^verbatim>\<open>1 / self.lambda_\<close> on Python floats raises for a zero divisor.\<close>

definition py_div :: "real \<Rightarrow> real \<Rightarrow> error + real" where
  "py_div a b = (if b = 0 then Inl ZeroDivisionError else Inr (a / b))"

definition ensure_non_zero :: "tval list \<Rightarrow> tval \<Rightarrow> real \<Rightarrow> tval list" where
  "ensure_non_zero cost beta factor = map (\<lambda>c. texp (Fin (- factor) * (c - beta))) cost"

text \<open>The result is the pair \<^verbatim>\<open>(self.cost_total_non_zero, self.omega)\<close>.\<close>

definition command_weights :: "tval list \<Rightarrow> real \<Rightarrow> error + (tval list \<times> tval list)" where
  "command_weights cost_total lambda =
     ebind (torch_min cost_total) (\<lambda>beta.
     ebind (py_div 1 lambda) (\<lambda>factor.
       let cost_total_non_zero = ensure_non_zero cost_total beta factor;
           eta = sum_list cost_total_non_zero;
           omega = map (\<lambda>x. (Fin 1 / eta) * x) cost_total_non_zero
       in Inr (cost_total_non_zero, omega)))"

text \<open>The normaliser \<^verbatim>\<open>eta\<close> of the same lines.\<close>

definition command_eta :: "tval list \<Rightarrow> real \<Rightarrow> error + tval" where
  "command_eta cost_total lambda =
     ebind (command_weights cost_total lambda) (\<lambda>r. Inr (sum_list (fst r)))"

section \<open>Tensors\<close>

text \<open>
  A tensor is a nested list of elements. Where torch checks a shape and raises, the model
  has a guard that returns an error. Outputs of the collaborators are accepted in the
  shape the planner hands them over (actions \<open>M \<times> K \<times> nu\<close> with \<open>M = 1\<close> for the
  write-back of line 245, costs \<open>M \<times> K\<close>); other shapes that torch would still broadcast
  are reported as \<open>RuntimeError\<close>.
\<close>

type_synonym vec = "tval list"
type_synonym mat = "tval list list"
type_synonym ten3 = "tval list list list"
type_synonym ten4 = "tval list list list list"

definition is_mat :: "nat \<Rightarrow> nat \<Rightarrow> 'a list list \<Rightarrow> bool" where
  "is_mat r c A \<longleftrightarrow> length A = r \<and> list_all (\<lambda>row. length row = c) A"

definition is_ten3 :: "nat \<Rightarrow> nat \<Rightarrow> nat \<Rightarrow> 'a list list list \<Rightarrow> bool" where
  "is_ten3 a r c X \<longleftrightarrow> length X = a \<and> list_all (is_mat r c) X"

definition torch_mean :: "vec \<Rightarrow> tval" where
  "torch_mean xs = sum_list xs / Fin (real (length xs))"

text \<open>\<^verbatim>\<open>Tensor.var\<close> is the unbiased sample variance.\<close>

definition torch_var :: "vec \<Rightarrow> tval" where
  "torch_var xs =
     (let mean = torch_mean xs
      in sum_list (map (\<lambda>x. (x - mean) * (x - mean)) xs) / Fin (real (length xs) - 1))"

text \<open>\<^verbatim>\<open>torch.stack(xs, dim=-2)\<close> of tensors of shape \<open>M \<times> K \<times> d\<close>: the result has shape
  \<open>M \<times> K \<times> T \<times> d\<close>. It raises on an empty list and on tensors of different shapes.\<close>

definition torch_stack :: "ten3 list \<Rightarrow> error + ten4" where
  "torch_stack xs =
     (case xs of
        [] \<Rightarrow> Inl RuntimeError
      | x # rest \<Rightarrow>
          if \<not> list_all (\<lambda>y. map (map length) y = map (map length) x) rest
          then Inl RuntimeError
          else Inr (map (\<lambda>m. map (\<lambda>k. map (\<lambda>y. y ! m ! k) xs) [0..<length (x ! m)])
                     [0..<length x]))"

text \<open>\<^verbatim>\<open>torch.roll(U, -1, dims=0)\<close>.\<close>

definition torch_roll :: "'a list \<Rightarrow> 'a list" where
  "torch_roll xs = (case xs of [] \<Rightarrow> [] | x # rest \<Rightarrow> rest @ [x])"

text \<open>The Python slice \<^verbatim>\<open>xs[:n]\<close>; a negative \<open>n\<close> counts from the end.\<close>

definition py_slice_to :: "'a list \<Rightarrow> int \<Rightarrow> 'a list" where
  "py_slice_to xs n = take (nat (if n < 0 then int (length xs) + n else n)) xs"

text \<open>A row vector times a \<open>n \<times> n\<close> matrix, the last two axes of \<^verbatim>\<open>noise @ noise_sigma_inv\<close>.\<close>

definition vec_mat :: "nat \<Rightarrow> vec \<Rightarrow> mat \<Rightarrow> vec" where
  "vec_mat n r S = map (\<lambda>j. sum_list (map (\<lambda>i. r ! i * S ! i ! j) [0..<n])) [0..<n]"

section \<open>Configuration, planner state and the outside world\<close>

text \<open>
  The fields of \<^verbatim>\<open>MPPIConfig\<close> that the planner reads. Scalars of the configuration are
  finite numbers; \<^verbatim>\<open>None\<close> for an optional list is \<open>None\<close>.
\<close>

record MPPIConfig =
  cfg_num_samples :: nat
  cfg_horizon :: nat
  cfg_noise_sigma :: "real list list option"
  cfg_noise_mu :: "real list option"
  cfg_lambda :: real
  cfg_u_min :: real
  cfg_u_max :: real
  cfg_u_init :: real
  cfg_U_init :: "real list list option"
  cfg_u_scale :: real
  cfg_u_per_command :: int
  cfg_rollout_samples :: nat
  cfg_rollout_var_cost :: real
  cfg_rollout_var_discount :: real
  cfg_sample_null_action :: bool
  cfg_noise_abs_cost :: bool
  cfg_filter_u :: bool

text \<open>
  The attributes of an \<^verbatim>\<open>MPPIPlanner\<close> object. The values of the last command
  (\<^verbatim>\<open>None\<close> before the first one) are empty tensors at the start.
\<close>

record MPPIPlanner =
  nx :: int
  noise_sigma :: mat
  noise_mu :: vec
  noise_sigma_inv :: mat
  u_init :: real
  U :: mat
  u_max :: real
  u_min :: real
  K :: nat
  T :: nat
  filter_u :: bool
  nu :: nat
  lambda :: real
  u_scale :: real
  u_per_command :: int
  sample_null_action :: bool
  noise_abs_cost :: bool
  M :: nat
  rollout_var_cost :: real
  rollout_var_discount :: real
  state :: mat
  noise :: ten3
  perturbed_action :: ten3
  cost_total :: vec
  cost_total_non_zero :: vec
  omega :: vec
  states :: ten4
  actions :: ten4

text \<open>
  What the planner calls and does not define: the collaborators \<^verbatim>\<open>dynamics\<close>,
  \<^verbatim>\<open>running_cost\<close> and the optional \<^verbatim>\<open>terminal_state_cost\<close>, which may raise; the values
  drawn by \<^verbatim>\<open>noise_dist.sample((K, T))\<close> in one cycle, by sample, step and action
  dimension; and the library functions \<^verbatim>\<open>torch.inverse\<close> (on a square matrix, \<open>None\<close> when
  it is singular), the checks of \<^verbatim>\<open>MultivariateNormal\<close> other than the symmetry of the
  covariance (the shape of the mean against the covariance, and the factorisation that
  needs a positive definite matrix) and \<^verbatim>\<open>scipy.signal.savgol_filter\<close> (data, window,
  order).
\<close>

record externals =
  dynamics :: "ten3 \<Rightarrow> ten3 \<Rightarrow> nat option \<Rightarrow> error + (ten3 \<times> ten3)"
  running_cost :: "ten3 \<Rightarrow> error + mat"
  terminal_state_cost :: "(ten4 \<Rightarrow> ten4 \<Rightarrow> error + mat) option"
  noise_draw :: "nat \<Rightarrow> nat \<Rightarrow> nat \<Rightarrow> tval"
  inverse_kernel :: "real list list \<Rightarrow> real list list option"
  mvn_accepts :: "real list \<Rightarrow> real list list \<Rightarrow> bool"
  savgol_filter :: "mat \<Rightarrow> nat \<Rightarrow> nat \<Rightarrow> error + mat"

section \<open>Construction (\<^verbatim>\<open>MPPIPlanner.__init__\<close>)\<close>

text \<open>\<^verbatim>\<open>int(nx / 2)\<close> truncates towards zero; \<^verbatim>\<open>np.identity\<close> raises on a negative size.\<close>

definition int_half :: "int \<Rightarrow> int" where
  "int_half n = (if 0 \<le> n then n div 2 else - ((- n) div 2))"

definition np_identity :: "int \<Rightarrow> error + real list list" where
  "np_identity n =
     (if n < 0 then Inl ValueError
      else Inr (map (\<lambda>i. map (\<lambda>j. if i = j then 1 else 0) [0..<nat n]) [0..<nat n]))"

text \<open>\<^verbatim>\<open>if not x: x = d\<close> on an optional list: \<^verbatim>\<open>None\<close> and the empty list are both false.\<close>

definition or_default :: "'a list option \<Rightarrow> 'a list \<Rightarrow> 'a list" where
  "or_default x d = (case x of None \<Rightarrow> d | Some v \<Rightarrow> if v = [] then d else v)"

text \<open>\<^verbatim>\<open>torch.inverse\<close> raises unless its argument is a square matrix that can be inverted. A
  list without rows becomes a tensor of one dimension, which is refused too.\<close>

definition torch_inverse :: "externals \<Rightarrow> real list list \<Rightarrow> error + real list list" where
  "torch_inverse ext A =
     (if A = [] \<or> \<not> is_mat (length A) (length A) A then Inl RuntimeError
      else case inverse_kernel ext A of None \<Rightarrow> Inl RuntimeError | Some B \<Rightarrow> Inr B)"

text \<open>
  Modelled from the spec: the argument check of \<^verbatim>\<open>MultivariateNormal\<close> (line 106), a
  class of torch and not of this repository. The covariance must be symmetric positive
  definite, and an asymmetric covariance is a configuration error: the library compares the
  matrix with its transpose, here entry by entry and exactly, and raises \<^verbatim>\<open>ValueError\<close>
  when they differ. What else the library checks is the collaborator \<open>mvn_accepts\<close>.
\<close>

definition is_symmetric :: "real list list \<Rightarrow> bool" where
  "is_symmetric A =
     list_all (\<lambda>i. list_all (\<lambda>j. A ! i ! j = A ! j ! i) [0..<length A]) [0..<length A]"

text \<open>
  Modelled from the spec: the construction of \<^verbatim>\<open>MultivariateNormal\<close> raises \<^verbatim>\<open>ValueError\<close>
  on a covariance that is not symmetric, and on what the library refuses otherwise.
\<close>

definition MultivariateNormal :: "externals \<Rightarrow> real list \<Rightarrow> real list list \<Rightarrow> error + unit" where
  "MultivariateNormal ext mu sigma =
     (if \<not> is_symmetric sigma then Inl ValueError
      else if \<not> mvn_accepts ext mu sigma then Inl ValueError
      else Inr ())"

text \<open>The bounds after lines 91 to 94: a bound that is zero (false in Python) takes the
  negated value of the other one when that is not zero.\<close>

definition mirrored_u_min :: "MPPIConfig \<Rightarrow> real" where
  "mirrored_u_min cfg =
     (if cfg_u_max cfg \<noteq> 0 \<and> cfg_u_min cfg = 0 then - cfg_u_max cfg else cfg_u_min cfg)"

definition mirrored_u_max :: "MPPIConfig \<Rightarrow> real" where
  "mirrored_u_max cfg =
     (if mirrored_u_min cfg \<noteq> 0 \<and> cfg_u_max cfg = 0 then - mirrored_u_min cfg
      else cfg_u_max cfg)"

text \<open>The covariance after lines 81 and 82.\<close>

definition effective_sigma :: "MPPIConfig \<Rightarrow> int \<Rightarrow> error + real list list" where
  "effective_sigma cfg n =
     (case cfg_noise_sigma cfg of
        None \<Rightarrow> np_identity (int_half n)
      | Some s \<Rightarrow> if s = [] then np_identity (int_half n) else Inr s)"

definition MPPIPlanner_init :: "externals \<Rightarrow> MPPIConfig \<Rightarrow> int \<Rightarrow> error + MPPIPlanner" where
  "MPPIPlanner_init ext cfg n =
     ebind (effective_sigma cfg n) (\<lambda>sigma.
       if \<not> list_all (\<lambda>row. length (hd sigma) = length row) sigma then Inl AssertionError
       else
         let mu = or_default (cfg_noise_mu cfg) (replicate (length sigma) 0);
             U0 = or_default (cfg_U_init cfg)
                    (replicate (cfg_horizon cfg) (replicate (length mu) 0))
         in if \<not> (0 < mirrored_u_max cfg \<and> mirrored_u_min cfg < 0) then Inl AssertionError
            else
              ebind (torch_inverse ext sigma) (\<lambda>sigma_inv.
              ebind (MultivariateNormal ext mu sigma) (\<lambda>noise_dist.
                if \<not> list_all (\<lambda>row. length row = length (hd U0)) U0 then Inl ValueError
                else Inr \<lparr>
                  nx = n,
                  noise_sigma = map (map Fin) sigma,
                  noise_mu = map Fin mu,
                  noise_sigma_inv = map (map Fin) sigma_inv,
                  u_init = cfg_u_init cfg,
                  U = map (map Fin) U0,
                  u_max = mirrored_u_max cfg,
                  u_min = mirrored_u_min cfg,
                  K = cfg_num_samples cfg,
                  T = cfg_horizon cfg,
                  filter_u = cfg_filter_u cfg,
                  nu = length sigma,
                  lambda = cfg_lambda cfg,
                  u_scale = cfg_u_scale cfg,
                  u_per_command = cfg_u_per_command cfg,
                  sample_null_action = cfg_sample_null_action cfg,
                  noise_abs_cost = cfg_noise_abs_cost cfg,
                  M = cfg_rollout_samples cfg,
                  rollout_var_cost = cfg_rollout_var_cost cfg,
                  rollout_var_discount = cfg_rollout_var_discount cfg,
                  state = [],
                  noise = [],
                  perturbed_action = [],
                  cost_total = [],
                  cost_total_non_zero = [],
                  omega = [],
                  states = [],
                  actions = [] \<rparr>)))"

section \<open>Rollout (\<^verbatim>\<open>_compute_rollout_costs\<close>)\<close>

text \<open>Lines 221 to 227: a state of shape \<open>K \<times> nx\<close> is used as it is, any other state is
  flattened and repeated for the \<open>K\<close> samples; the batch is repeated \<open>M\<close> times. The state
  is a matrix; a state vector is a matrix of one row.\<close>

definition initial_state :: "MPPIPlanner \<Rightarrow> ten3" where
  "initial_state p =
     replicate (M p)
       (if length (state p) = K p \<and> list_all (\<lambda>row. int (length row) = nx p) (state p)
        then state p
        else replicate (K p) (concat (state p)))"

text \<open>The variables of the loop over the horizon; \<open>r_perturbed_action\<close> is
  \<^verbatim>\<open>self.perturbed_action\<close>, which the loop writes.\<close>

record rollout_vars =
  r_state :: ten3
  r_cost_samples :: mat
  r_cost_var :: vec
  r_perturbed_action :: ten3
  r_states :: "ten3 list"
  r_actions :: "ten3 list"

text \<open>Lines 236 to 239: the last sample is a braking manoeuvre. The index \<open>K - 1\<close> does
  not exist without samples, and the \<open>M \<times> nu\<close> slice is stored in one action only for
  \<open>M = 1\<close>.\<close>

definition null_action :: "MPPIPlanner \<Rightarrow> nat \<Rightarrow> ten3 \<Rightarrow> ten3 \<Rightarrow> error + (ten3 \<times> ten3)" where
  "null_action p t u pa =
     (if \<not> sample_null_action p then Inr (u, pa)
      else if K p = 0 then Inl IndexError
      else
        let u' = map (\<lambda>um. um[K p - 1 := replicate (nu p) (Fin 0)]) u
        in if M p \<noteq> 1 then Inl RuntimeError
           else Inr (u', pa[K p - 1 := (pa ! (K p - 1))[t := u' ! 0 ! (K p - 1)]]))"

text \<open>One pass of the loop body, lines 233 to 253, at step \<open>t\<close>.\<close>

definition rollout_step :: "externals \<Rightarrow> MPPIPlanner \<Rightarrow> nat \<Rightarrow> rollout_vars \<Rightarrow> error + rollout_vars" where
  "rollout_step ext p t v =
     (let u = replicate (M p)
                (map (\<lambda>row. map (\<lambda>a. Fin (u_scale p) * a) (row ! t)) (r_perturbed_action v))
      in ebind (null_action p t u (r_perturbed_action v)) (\<lambda>(u1, pa1).
         ebind (dynamics ext (r_state v) u1 None) (\<lambda>(state', u2).
         ebind (running_cost ext state') (\<lambda>c.
           if \<not> is_ten3 1 (K p) (nu p) u2 then Inl RuntimeError
           else if \<not> is_mat (M p) (K p) c then Inl RuntimeError
           else Inr (v\<lparr>
             r_state := state',
             r_perturbed_action := map (\<lambda>k. (pa1 ! k)[t := u2 ! 0 ! k]) [0..<K p],
             r_cost_samples := map2 (map2 (+)) (r_cost_samples v) c,
             r_cost_var :=
               (if 1 < M p
                then map (\<lambda>k. r_cost_var v ! k
                          + torch_var (map (\<lambda>row. row ! k) c) * Fin (rollout_var_discount p ^ t))
                       [0..<K p]
                else r_cost_var v),
             r_states := r_states v @ [state'],
             r_actions := r_actions v @ [u2] \<rparr>)))))"

fun rollout_loop :: "externals \<Rightarrow> MPPIPlanner \<Rightarrow> nat list \<Rightarrow> rollout_vars \<Rightarrow> error + rollout_vars" where
  "rollout_loop ext p [] v = Inr v"
| "rollout_loop ext p (t # ts) v = ebind (rollout_step ext p t v) (rollout_loop ext p ts)"

text \<open>Lines 261 to 263.\<close>

definition add_terminal_cost :: "externals \<Rightarrow> MPPIPlanner \<Rightarrow> ten4 \<Rightarrow> ten4 \<Rightarrow> mat \<Rightarrow> error + mat" where
  "add_terminal_cost ext p sts acts cost_samples =
     (case terminal_state_cost ext of
        None \<Rightarrow> Inr cost_samples
      | Some f \<Rightarrow>
          ebind (f sts acts) (\<lambda>c.
            if \<not> is_mat (M p) (K p) c then Inl RuntimeError
            else Inr (map2 (map2 (+)) cost_samples c)))"

text \<open>The result is \<^verbatim>\<open>(cost_total, states, actions)\<close> and the written
  \<^verbatim>\<open>self.perturbed_action\<close>. The argument is \<^verbatim>\<open>self.perturbed_action\<close>, of shape
  \<open>K \<times> T \<times> nu\<close>.\<close>

definition compute_rollout_costs ::
  "externals \<Rightarrow> MPPIPlanner \<Rightarrow> ten3 \<Rightarrow> error + (vec \<times> ten4 \<times> ten4 \<times> ten3)" where
  "compute_rollout_costs ext p perturbed_actions =
     (if \<not> is_ten3 (K p) (T p) (nu p) perturbed_actions then Inl AssertionError
      else
        let v0 = \<lparr> r_state = initial_state p,
                   r_cost_samples = replicate (M p) (replicate (K p) (Fin 0)),
                   r_cost_var = replicate (K p) (Fin 0),
                   r_perturbed_action = perturbed_actions,
                   r_states = [],
                   r_actions = [] \<rparr>
        in ebind (rollout_loop ext p [0..<T p] v0) (\<lambda>v.
           ebind (torch_stack (r_actions v)) (\<lambda>acts.
           ebind (torch_stack (r_states v)) (\<lambda>sts.
           ebind (add_terminal_cost ext p sts acts (r_cost_samples v)) (\<lambda>cost_samples.
             let cost_total1 =
                   map (\<lambda>k. Fin 0 + torch_mean (map (\<lambda>row. row ! k) cost_samples)) [0..<K p];
                 cost_total2 =
                   map (\<lambda>k. cost_total1 ! k + r_cost_var v ! k * Fin (rollout_var_cost p))
                     [0..<K p]
             in Inr (cost_total2, sts, acts, r_perturbed_action v))))))"

section \<open>Total cost (\<^verbatim>\<open>_compute_total_cost_batch\<close>, \<^verbatim>\<open>_bound_action\<close>)\<close>

definition bound_action :: "MPPIPlanner \<Rightarrow> ten3 \<Rightarrow> ten3" where
  "bound_action p action =
     map (map (map (\<lambda>a. tmax (tmin a (Fin (u_max p))) (Fin (u_min p))))) action"

text \<open>\<^verbatim>\<open>self.noise_dist.sample((self.K, self.T))\<close>, of shape \<open>K \<times> T \<times> nu\<close>.\<close>

definition sample_noise :: "externals \<Rightarrow> MPPIPlanner \<Rightarrow> ten3" where
  "sample_noise ext p =
     map (\<lambda>k. map (\<lambda>t. map (\<lambda>j. noise_draw ext k t j) [0..<nu p]) [0..<T p]) [0..<K p]"

text \<open>Lines 286 to 294; \<open>*\<close> and \<open>@\<close> associate to the left.\<close>

definition action_cost :: "MPPIPlanner \<Rightarrow> ten3 \<Rightarrow> ten3" where
  "action_cost p ns =
     (if noise_abs_cost p
      then map (map (\<lambda>r. vec_mat (nu p) (map (\<lambda>a. Fin (lambda p) * \<bar>a\<bar>) r)
                            (noise_sigma_inv p))) ns
      else map (map (\<lambda>r. vec_mat (nu p) (map (\<lambda>a. Fin (lambda p) * a) r)
                            (noise_sigma_inv p))) ns)"

text \<open>Line 297: \<^verbatim>\<open>torch.sum(self.U * action_cost, dim=(1, 2))\<close>.\<close>

definition perturbation_cost :: "MPPIPlanner \<Rightarrow> ten3 \<Rightarrow> vec" where
  "perturbation_cost p ns =
     map (\<lambda>ack. sum_list (map sum_list (map2 (map2 (*)) (U p) ack))) (action_cost p ns)"

text \<open>The result is the returned \<^verbatim>\<open>self.cost_total\<close> and the planner with the attributes
  the function assigns. \<^verbatim>\<open>self.U\<close> has to be of shape \<open>T \<times> nu\<close> to be added to the noise and
  updated, and the inverse covariance of shape \<open>nu \<times> nu\<close> for the product.\<close>

definition compute_total_cost_batch :: "externals \<Rightarrow> MPPIPlanner \<Rightarrow> error + (vec \<times> MPPIPlanner)" where
  "compute_total_cost_batch ext p =
     (if \<not> is_mat (T p) (nu p) (U p) then Inl RuntimeError
      else
        ebind (compute_rollout_costs ext p
                 (bound_action p (map (\<lambda>nk. map2 (map2 (+)) (U p) nk) (sample_noise ext p))))
          (\<lambda>(cost_total0, sts, acts, pa2).
             if \<not> is_mat (nu p) (nu p) (noise_sigma_inv p) then Inl RuntimeError
             else
               let noise1 = map (\<lambda>pk. map2 (map2 (-)) pk (U p)) pa2;
                   cost_total1 = map2 (+) cost_total0 (perturbation_cost p noise1)
               in Inr (cost_total1,
                       p\<lparr> noise := noise1, perturbed_action := pa2, cost_total := cost_total1,
                          states := sts,
                          actions := map (map (map (map (\<lambda>a. a / Fin (u_scale p))))) acts \<rparr>)))"

section \<open>One planning cycle (\<^verbatim>\<open>command\<close>)\<close>

text \<open>The returned action is one vector for \<^verbatim>\<open>u_per_command == 1\<close> and a sequence of
  vectors otherwise.\<close>

datatype action = Vec vec | Mat mat

fun action_elements :: "action \<Rightarrow> tval list" where
  "action_elements (Vec v) = v"
| "action_elements (Mat m) = concat m"

text \<open>The loop of lines 174 and 175.\<close>

definition update_U :: "MPPIPlanner \<Rightarrow> mat \<Rightarrow> vec \<Rightarrow> ten3 \<Rightarrow> mat" where
  "update_U p U1 om ns =
     map (\<lambda>t. map (\<lambda>j. U1 ! t ! j + sum_list (map (\<lambda>k. om ! k * ns ! k ! t ! j) [0..<K p]))
                [0..<nu p])
       [0..<T p]"

text \<open>
  Lines 177 to 204, on the planner with the updated \<^verbatim>\<open>self.U\<close>: the null action (line
  179), the filter (lines 184 to 196), and line 199, which assigns \<^verbatim>\<open>action\<close> again from
  \<^verbatim>\<open>self.U\<close>. The filter can raise.
\<close>

definition command_return :: "externals \<Rightarrow> MPPIPlanner \<Rightarrow> vec \<Rightarrow> error + action" where
  "command_return ext p cost =
     (let action0 = U p;
          action1 = (if sample_null_action p \<and> last cost \<le> Fin (1 / 100)
                     then map (map (\<lambda>a. Fin 0)) action0 else action0)
      in ebind (if filter_u p then savgol_filter ext action1 (T p) 2 else Inr action1)
           (\<lambda>action2.
             let action3 = py_slice_to (U p) (u_per_command p)
             in if u_per_command p = 1
                then (case action3 of [] \<Rightarrow> Inl IndexError | a # rest \<Rightarrow> Inr (Vec a))
                else Inr (Mat action3)))"

text \<open>
  The body of \<^verbatim>\<open>command\<close>, in the order of the source: the shift, the total costs, the
  weights, the update of \<^verbatim>\<open>self.U\<close>, and the action to return.
\<close>

definition command :: "externals \<Rightarrow> MPPIPlanner \<Rightarrow> mat \<Rightarrow> error + (action \<times> MPPIPlanner)" where
  "command ext p state_in =
     ebind (compute_total_cost_batch ext (p\<lparr> U := torch_roll (U p), state := state_in \<rparr>))
       (\<lambda>(cost, p2).
          ebind (command_weights cost (lambda p2)) (\<lambda>(nz, om).
            let p3 = p2\<lparr> cost_total_non_zero := nz, omega := om,
                         U := update_U p2 (U p2) om (noise p2) \<rparr>
            in ebind (command_return ext p3 cost) (\<lambda>a. Inr (a, p3))))"

section \<open>The manual sum along one trajectory\<close>

text \<open>
  The comparison of the rollout consistency property: with one sample and one rollout, the
  action batch handed to the dynamics at step \<open>t\<close> (the scaled perturbed action, or the
  null action), and the running costs of the states computed one after the other from
  the first state.
\<close>

definition single_action :: "MPPIPlanner \<Rightarrow> ten3 \<Rightarrow> nat \<Rightarrow> ten3" where
  "single_action p pa t =
     [[if sample_null_action p then replicate (nu p) (Fin 0)
       else map (\<lambda>a. Fin (u_scale p) * a) (pa ! 0 ! t)]]"

fun manual_costs :: "externals \<Rightarrow> ten3 \<Rightarrow> ten3 list \<Rightarrow> error + tval list" where
  "manual_costs ext st [] = Inr []"
| "manual_costs ext st (u # us) =
     ebind (dynamics ext st u None) (\<lambda>(st', u').
     ebind (running_cost ext st') (\<lambda>c.
     ebind (manual_costs ext st' us) (\<lambda>cs. Inr (c ! 0 ! 0 # cs))))"

section \<open>Concrete planners\<close>

text \<open>
  A planner with one sample, one step and one action dimension, bounds \<open>[-1, 1]\<close> and a
  nominal sequence of zeros; collaborators that return the action unchanged and cost
  zero; a noise draw of \<open>3/2\<close>, which the bounds clip to \<open>1\<close>.
\<close>

definition unit_externals :: externals where
  "unit_externals =
     \<lparr> dynamics = (\<lambda>s u t. Inr (s, u)),
       running_cost = (\<lambda>s. Inr [[Fin 0]]),
       terminal_state_cost = None,
       noise_draw = (\<lambda>k t j. Fin (3 / 2)),
       inverse_kernel = (\<lambda>A. Some A),
       mvn_accepts = (\<lambda>mu A. True),
       savgol_filter = (\<lambda>u w n. Inr u) \<rparr>"

definition unit_planner :: MPPIPlanner where
  "unit_planner =
     \<lparr> nx = 2, noise_sigma = [[Fin 1]], noise_mu = [Fin 0], noise_sigma_inv = [[Fin 1]],
       u_init = 0, U = [[Fin 0]], u_max = 1, u_min = - 1, K = 1, T = 1, filter_u = False,
       nu = 1, lambda = 1, u_scale = 1, u_per_command = 1, sample_null_action = False,
       noise_abs_cost = False, M = 1, rollout_var_cost = 0, rollout_var_discount = 95 / 100,
       state = [], noise = [], perturbed_action = [], cost_total = [],
       cost_total_non_zero = [], omega = [], states = [], actions = [] \<rparr>"

definition unit_state :: mat where
  "unit_state = [[Fin 0, Fin 0]]"

definition unit_planner_after :: MPPIPlanner where
  "unit_planner_after =
     unit_planner\<lparr> U := [[Fin 1]], state := unit_state, noise := [[[Fin 1]]],
       perturbed_action := [[[Fin 1]]], cost_total := [Fin 0], cost_total_non_zero := [Fin 1],
       omega := [Fin 1], states := [[[[Fin 0, Fin 0]]]], actions := [[[[Fin 1]]]] \<rparr>"

text \<open>The same planner with \<^verbatim>\<open>u_scale = 2\<close>.\<close>

definition scaled_planner :: MPPIPlanner where
  "scaled_planner = unit_planner\<lparr> u_scale := 2 \<rparr>"

definition scaled_planner_after :: MPPIPlanner where
  "scaled_planner_after =
     scaled_planner\<lparr> U := [[Fin 2]], state := unit_state, noise := [[[Fin 2]]],
       perturbed_action := [[[Fin 2]]], cost_total := [Fin 0], cost_total_non_zero := [Fin 1],
       omega := [Fin 1], states := [[[[Fin 0, Fin 0]]]], actions := [[[[Fin 1]]]] \<rparr>"



text \<open>Two samples with \<^verbatim>\<open>sample_null_action\<close>: the first draws noise \<open>1\<close>, the last one is
  the null action; both cost zero.\<close>

definition null_externals :: externals where
  "null_externals =
     unit_externals\<lparr> running_cost := (\<lambda>s. Inr [[Fin 0, Fin 0]]),
       noise_draw := (\<lambda>k t j. if k = 0 then Fin 1 else Fin 0) \<rparr>"

definition null_planner :: MPPIPlanner where
  "null_planner = unit_planner\<lparr> K := 2, sample_null_action := True \<rparr>"

definition null_planner_after :: MPPIPlanner where
  "null_planner_after =
     null_planner\<lparr> U := [[Fin (1 / 2)]], state := unit_state, noise := [[[Fin 1]], [[Fin 0]]],
       perturbed_action := [[[Fin 1]], [[Fin 0]]], cost_total := [Fin 0, Fin 0],
       cost_total_non_zero := [Fin 1, Fin 1], omega := [Fin (1 / 2), Fin (1 / 2)],
       states := [[[[Fin 0, Fin 0]], [[Fin 0, Fin 0]]]], actions := [[[[Fin 1]], [[Fin 0]]]] \<rparr>"

text \<open>
  A horizon of five steps with the filter enabled and a noise draw of \<open>1\<close> at the third
  step only. On the sequence \<open>0, 0, 1, 0, 0\<close> the Savitzky-Golay filter of window 5 and
  order 2 gives the least-squares parabola \<open>-3/35, 12/35, 17/35, 12/35, -3/35\<close>.
\<close>

definition filtered_U :: mat where
  "filtered_U = [[Fin (- 3 / 35)], [Fin (12 / 35)], [Fin (17 / 35)], [Fin (12 / 35)],
                 [Fin (- 3 / 35)]]"

definition filter_externals :: externals where
  "filter_externals =
     unit_externals\<lparr> noise_draw := (\<lambda>k t j. if t = 2 then Fin 1 else Fin 0),
       savgol_filter := (\<lambda>u w n. Inr filtered_U) \<rparr>"

definition filter_planner :: MPPIPlanner where
  "filter_planner =
     unit_planner\<lparr> T := 5, U := [[Fin 0], [Fin 0], [Fin 0], [Fin 0], [Fin 0]],
       filter_u := True \<rparr>"

definition filter_planner_after :: MPPIPlanner where
  "filter_planner_after =
     filter_planner\<lparr> U := [[Fin 0], [Fin 0], [Fin 1], [Fin 0], [Fin 0]], state := unit_state,
       noise := [[[Fin 0], [Fin 0], [Fin 1], [Fin 0], [Fin 0]]],
       perturbed_action := [[[Fin 0], [Fin 0], [Fin 1], [Fin 0], [Fin 0]]],
       cost_total := [Fin 0], cost_total_non_zero := [Fin 1], omega := [Fin 1],
       states := [[[[Fin 0, Fin 0], [Fin 0, Fin 0], [Fin 0, Fin 0], [Fin 0, Fin 0],
                    [Fin 0, Fin 0]]]],
       actions := [[[[Fin 0], [Fin 0], [Fin 1], [Fin 0], [Fin 0]]]] \<rparr>"

text \<open>
  A rollout of two steps on a state of one dimension: the dynamics adds the action to the
  state, the running cost is the state.
\<close>

definition walk_externals :: externals where
  "walk_externals =
     unit_externals\<lparr> dynamics := (\<lambda>s u t. Inr (map2 (map2 (map2 (+))) s u, u)),
       running_cost := (\<lambda>s. Inr (map (map (\<lambda>row. row ! 0)) s)) \<rparr>"

definition walk_planner :: MPPIPlanner where
  "walk_planner = unit_planner\<lparr> nx := 1, T := 2, state := [[Fin 0]] \<rparr>"

text \<open>Configurations: bounds \<open>u_min = 0\<close>, \<open>u_max = 1\<close>, and bounds \<open>u_min = -1\<close>,
  \<open>u_max = -1\<close>, with the covariance \<open>[[1]]\<close>; and bounds \<open>u_min = -1\<close>, \<open>u_max = 1\<close>
  with the square covariance \<open>[[1, 2], [0, 1]]\<close>, which is not symmetric.\<close>

definition zero_min_cfg :: MPPIConfig where
  "zero_min_cfg =
     \<lparr> cfg_num_samples = 100, cfg_horizon = 30, cfg_noise_sigma = Some [[1]],
       cfg_noise_mu = None, cfg_lambda = 1, cfg_u_min = 0, cfg_u_max = 1, cfg_u_init = 0,
       cfg_U_init = None, cfg_u_scale = 1, cfg_u_per_command = 1, cfg_rollout_samples = 1,
       cfg_rollout_var_cost = 0, cfg_rollout_var_discount = 95 / 100,
       cfg_sample_null_action = False, cfg_noise_abs_cost = False, cfg_filter_u = False \<rparr>"

definition negative_max_cfg :: MPPIConfig where
  "negative_max_cfg = zero_min_cfg\<lparr> cfg_u_min := - 1, cfg_u_max := - 1 \<rparr>"

definition asymmetric_cfg :: MPPIConfig where
  "asymmetric_cfg =
     zero_min_cfg\<lparr> cfg_u_min := - 1, cfg_noise_sigma := Some [[1, 2], [0, 1]] \<rparr>"

section \<open>Arithmetic on finite elements\<close>

lemma ebind_Inr_iff: "ebind m f = Inr y \<longleftrightarrow> (\<exists>x. m = Inr x \<and> f x = Inr y)"
  by (cases m) (simp_all add: ebind_def)

lemma tmin_Fin [simp]: "tmin (Fin a) (Fin b) = Fin (min a b)"
  by (simp add: tmin_def min_def)

lemma tmax_Fin [simp]: "tmax (Fin a) (Fin b) = Fin (max a b)"
  by (simp add: tmax_def max_def)

lemma minus_Fin [simp]: "Fin a - Fin b = Fin (a - b)"
  by (simp add: minus_tval_def)

lemma all_fin_map: "list_all is_fin xs \<Longrightarrow> xs = map Fin (map the_fin xs)"
proof (induction xs)
  case Nil
  show ?case by simp
next
  case (Cons x xs)
  then show ?case by (cases x) simp_all
qed

lemma sum_list_Fin: "sum_list (map Fin xs) = Fin (sum_list xs)"
  by (induction xs) (simp_all add: zero_tval_def)

lemma sum_list_Fin_comp: "sum_list (map (Fin \<circ> f) xs) = Fin (sum_list (map f xs))"
  by (induction xs) (simp_all add: zero_tval_def)

lemma foldl_tmin_Fin: "foldl tmin (Fin a) (map Fin xs) = Fin (foldl min a xs)"
  by (induction xs arbitrary: a) simp_all

lemma foldl_min_Min: "foldl min (a::real) xs = Min (set (a # xs))"
proof (induction xs arbitrary: a)
  case Nil
  show ?case by simp
next
  case (Cons x xs)
  have "foldl min a (x # xs) = Min (set (min a x # xs))"
    using Cons by simp
  also have "\<dots> = Min (set (a # x # xs))"
    by (cases "xs = []") (simp_all add: min.assoc)
  finally show ?case .
qed

lemma torch_min_Fin: "cs \<noteq> [] \<Longrightarrow> torch_min (map Fin cs) = Inr (Fin (Min (set cs)))"
  by (cases cs) (simp_all add: torch_min_def foldl_tmin_Fin foldl_min_Min)

lemma sum_list_pos_real: "xs \<noteq> [] \<Longrightarrow> \<forall>x\<in>set xs. 0 < (x::real) \<Longrightarrow> 0 < sum_list xs"
proof (induction xs)
  case Nil
  then show ?case by simp
next
  case (Cons x xs)
  then show ?case by (cases "xs = []") (simp_all add: add_pos_pos)
qed

lemma member_le_sum_list_real:
  "x \<in> set xs \<Longrightarrow> \<forall>y\<in>set xs. 0 \<le> (y::real) \<Longrightarrow> x \<le> sum_list xs"
proof (induction xs)
  case Nil
  then show ?case by simp
next
  case (Cons y ys)
  have nn: "0 \<le> sum_list ys"
    using Cons.prems by (simp add: sum_list_nonneg)
  show ?case
  proof (cases "x = y")
    case True
    with nn show ?thesis by simp
  next
    case False
    with Cons have "x \<le> sum_list ys" by simp
    moreover have "0 \<le> y" using Cons.prems by simp
    ultimately show ?thesis by simp
  qed
qed

section \<open>The weights on finite costs\<close>

text \<open>On a vector of finite costs and a temperature that is not zero, the weight step
  computes the softmin of the real costs.\<close>

lemma sum_list_mult_real: "sum_list (map (\<lambda>x. c * x) xs) = c * sum_list (xs::real list)"
  by (induction xs) (simp_all add: algebra_simps)

lemma command_weights_Fin:
  fixes cs :: "real list" and lam :: real
  defines "e \<equiv> map (\<lambda>c. exp (- (1 / lam) * (c - Min (set cs)))) cs"
  assumes "cs \<noteq> []" and "lam \<noteq> 0"
  shows "command_weights (map Fin cs) lam
           = Inr (map Fin e, map Fin (map (\<lambda>x. 1 / sum_list e * x) e))"
proof -
  have pos: "0 < sum_list e"
    using assms(2) by (intro sum_list_pos_real) (auto simp: e_def)
  have t: "torch_min (map Fin cs) = Inr (Fin (Min (set cs)))"
    using assms(2) by (rule torch_min_Fin)
  have d: "py_div 1 lam = Inr (1 / lam)"
    using assms(3) by (simp add: py_div_def)
  have n: "ensure_non_zero (map Fin cs) (Fin (Min (set cs))) (1 / lam) = map Fin e"
    by (simp add: ensure_non_zero_def e_def)
  have o: "map (\<lambda>x. (Fin 1 / Fin (sum_list e)) * x) (map Fin e)
             = map Fin (map (\<lambda>x. 1 / sum_list e * x) e)"
    using pos by simp
  show ?thesis
    unfolding command_weights_def t d ebind_def
    by (simp only: sum.case Let_def n sum_list_Fin o)
qed

text \<open>
  C1. For every vector \<open>cost\<close> of finite costs (at least one) and every temperature
  \<open>lam > 0\<close>, the weight step of \<^verbatim>\<open>command\<close> returns weights \<open>om\<close>, one for each cost, that
  are all non-negative and sum to one.
\<close>

theorem weights_distribution:
  assumes "cost \<noteq> []" and "list_all is_fin cost" and "0 < lam"
  shows "\<exists>nz om. command_weights cost lam = Inr (nz, om) \<and> length om = length cost
           \<and> (\<forall>w \<in> set om. Fin 0 \<le> w) \<and> sum_list om = Fin 1"
proof -
  define cs where "cs = map the_fin cost"
  have ct: "cost = map Fin cs" and ne: "cs \<noteq> []"
    using assms all_fin_map by (simp_all add: cs_def)
  define e where "e = map (\<lambda>c. exp (- (1 / lam) * (c - Min (set cs)))) cs"
  define ws where "ws = map (\<lambda>x. 1 / sum_list e * x) e"
  have epos: "\<forall>x\<in>set e. 0 < x"
    by (auto simp: e_def)
  have "e \<noteq> []"
    using ne by (simp add: e_def)
  then have pos: "0 < sum_list e"
    using epos by (rule sum_list_pos_real)
  have cw: "command_weights cost lam = Inr (map Fin e, map Fin ws)"
    using command_weights_Fin[OF ne, of lam] assms(3) by (simp add: ct e_def ws_def)
  have "sum_list ws = 1 / sum_list e * sum_list e"
    unfolding ws_def by (rule sum_list_mult_real)
  then have "sum_list ws = 1"
    using pos by simp
  then have one: "sum_list (map Fin ws) = Fin 1"
    by (simp add: sum_list_Fin)
  have nn: "\<forall>w \<in> set (map Fin ws). Fin 0 \<le> w"
    using epos pos by (auto simp: ws_def intro!: divide_nonneg_pos less_imp_le)
  have len: "length (map Fin ws) = length cost"
    by (simp add: ws_def e_def ct)
  from cw nn len one show ?thesis by blast
qed

theorem weights_distribution_witness:
  "[Fin 1, Fin 3] \<noteq> [] \<and> list_all is_fin [Fin 1, Fin 3] \<and> (0::real) < 2
   \<and> (\<exists>nz om. command_weights [Fin 1, Fin 3] 2 = Inr (nz, om)
         \<and> length om = length [Fin 1, Fin 3]
         \<and> (\<forall>w \<in> set om. Fin 0 \<le> w) \<and> sum_list om = Fin 1)"
  using weights_distribution[of "[Fin 1, Fin 3]" 2] by simp

lemma tmin_shift: "tmin (a + Fin d) (b + Fin d) = tmin a b + Fin d"
  by (cases a; cases b) (simp_all add: tmin_def)

lemma foldl_tmin_shift:
  "foldl tmin (x + Fin d) (map (\<lambda>c. c + Fin d) xs) = foldl tmin x xs + Fin d"
  by (induction xs arbitrary: x) (simp_all add: tmin_shift)

lemma minus_shift: "(c + Fin d) - (b + Fin d) = c - (b::tval)"
  by (cases c; cases b) (simp_all add: minus_tval_def)

text \<open>
  C4. Adding a constant \<open>d\<close> to every cost leaves the result of the weight step (the
  weights, the unnormalised weights, or the exception) unchanged.
\<close>

theorem softmin_shift_invariant:
  "command_weights (map (\<lambda>c. c + Fin d) cost) lam = command_weights cost lam"
proof (cases cost)
  case Nil
  then show ?thesis
    by (simp add: command_weights_def torch_min_def ebind_def)
next
  case (Cons x xs)
  define beta where "beta = foldl tmin x xs"
  have t1: "torch_min cost = Inr beta"
    by (simp add: torch_min_def Cons beta_def)
  have t2: "torch_min (map (\<lambda>c. c + Fin d) cost) = Inr (beta + Fin d)"
    by (simp add: torch_min_def Cons beta_def foldl_tmin_shift)
  have e: "ensure_non_zero (map (\<lambda>c. c + Fin d) cost) (beta + Fin d) f
             = ensure_non_zero cost beta f" for f
    by (simp add: ensure_non_zero_def minus_shift)
  show ?thesis
    unfolding command_weights_def t1 t2 ebind_def by (simp add: e cong: sum.case_cong)
qed

theorem softmin_shift_invariant_witness:
  "command_weights (map (\<lambda>c. c + Fin 5) [Fin 1, PInf, Fin 3]) 2
     = command_weights [Fin 1, PInf, Fin 3] 2"
  by (rule softmin_shift_invariant)

text \<open>
  C10. For every vector of finite costs (at least one) and every temperature \<open>lam > 0\<close>,
  the normaliser \<^verbatim>\<open>eta\<close> is a finite number that is at least one, so \<^verbatim>\<open>1.0 / eta\<close> does not
  divide by zero.
\<close>

theorem eta_at_least_one:
  assumes "cost \<noteq> []" and "list_all is_fin cost" and "0 < lam"
  shows "\<exists>eta. command_eta cost lam = Inr (Fin eta) \<and> 1 \<le> eta"
proof -
  define cs where "cs = map the_fin cost"
  have ct: "cost = map Fin cs" and ne: "cs \<noteq> []"
    using assms all_fin_map by (simp_all add: cs_def)
  define e where "e = map (\<lambda>c. exp (- (1 / lam) * (c - Min (set cs)))) cs"
  have enn: "\<forall>x\<in>set e. 0 \<le> x"
    by (auto simp: e_def)
  have "Min (set cs) \<in> set cs"
    using ne by (intro Min_in) simp_all
  then have "(\<lambda>c. exp (- (1 / lam) * (c - Min (set cs)))) (Min (set cs)) \<in> set e"
    unfolding e_def set_map by (rule imageI)
  then have "1 \<in> set e"
    by simp
  then have "1 \<le> sum_list e"
    using enn by (rule member_le_sum_list_real)
  moreover have "command_weights cost lam
      = Inr (map Fin e, map Fin (map (\<lambda>x. 1 / sum_list e * x) e))"
    unfolding ct e_def using ne assms(3) by (intro command_weights_Fin) simp_all
  then have "command_eta cost lam = Inr (Fin (sum_list e))"
    unfolding command_eta_def ebind_def by (simp only: sum.case fst_conv sum_list_Fin)
  ultimately show ?thesis by blast
qed

theorem eta_at_least_one_witness:
  "[Fin 1, Fin 3] \<noteq> [] \<and> list_all is_fin [Fin 1, Fin 3] \<and> (0::real) < 2
   \<and> (\<exists>eta. command_eta [Fin 1, Fin 3] 2 = Inr (Fin eta) \<and> 1 \<le> eta)"
  using eta_at_least_one[of "[Fin 1, Fin 3]" 2] by simp

section \<open>Shapes kept by the rollout\<close>

lemma is_mat_nth: "is_mat r c A \<Longrightarrow> i < r \<Longrightarrow> length (A ! i) = c"
  by (simp add: is_mat_def list_all_length)

lemma is_mat_length: "is_mat r c A \<Longrightarrow> length A = r"
  by (simp add: is_mat_def)

lemma is_ten3_nth: "is_ten3 a r c X \<Longrightarrow> i < a \<Longrightarrow> is_mat r c (X ! i)"
  by (simp add: is_ten3_def list_all_length)

lemma is_ten3_length: "is_ten3 a r c X \<Longrightarrow> length X = a"
  by (simp add: is_ten3_def)

lemma is_mat_update: "is_mat r c A \<Longrightarrow> length row = c \<Longrightarrow> is_mat r c (A[i := row])"
  by (auto simp: is_mat_def list_all_iff dest!: set_update_subset_insert[THEN subsetD])

lemma is_ten3_update: "is_ten3 a r c X \<Longrightarrow> is_mat r c A \<Longrightarrow> is_ten3 a r c (X[i := A])"
  by (auto simp: is_ten3_def list_all_iff dest!: set_update_subset_insert[THEN subsetD])

lemma null_action_shape:
  assumes "null_action p t u pa = Inr (u1, pa1)" and "is_ten3 (K p) (T p) (nu p) pa"
    and "is_ten3 (M p) (K p) (nu p) u"
  shows "is_ten3 (K p) (T p) (nu p) pa1"
proof (cases "sample_null_action p")
  case False
  with assms show ?thesis by (simp add: null_action_def)
next
  case True
  with assms(1) have k: "K p \<noteq> 0" and m: "M p = 1"
    by (auto simp: null_action_def Let_def split: if_splits)
  define u' where "u' = map (\<lambda>um. um[K p - 1 := replicate (nu p) (Fin 0)]) u"
  have pa1: "pa1 = pa[K p - 1 := (pa ! (K p - 1))[t := u' ! 0 ! (K p - 1)]]"
    using assms(1) True k m by (auto simp: null_action_def Let_def u'_def)
  have "is_mat (K p) (nu p) (u ! 0)"
    using assms(3) m by (intro is_ten3_nth[where a = "M p"]) simp_all
  then have "length (u ! 0) = K p" by (rule is_mat_length)
  moreover have "length u = 1" using is_ten3_length[OF assms(3)] m by simp
  ultimately have "u' ! 0 ! (K p - 1) = replicate (nu p) (Fin 0)"
    using k by (simp add: u'_def)
  then have "length (u' ! 0 ! (K p - 1)) = nu p" by simp
  moreover have "is_mat (T p) (nu p) (pa ! (K p - 1))"
    using assms(2) k by (simp add: is_ten3_nth)
  ultimately show ?thesis
    unfolding pa1 using assms(2) by (intro is_ten3_update is_mat_update)
qed

lemma scaled_u_shape:
  assumes "is_ten3 (K p) (T p) (nu p) pa" and "t < T p"
  shows "is_ten3 (M p) (K p) (nu p)
     (replicate (M p) (map (\<lambda>row. map (\<lambda>a. Fin (u_scale p) * a) (row ! t)) pa))"
  using assms
  by (auto simp: is_ten3_def is_mat_def list_all_iff list_all_length)

lemma rollout_step_shape:
  assumes "rollout_step ext p t v = Inr v'" and "is_ten3 (K p) (T p) (nu p) (r_perturbed_action v)"
    and "t < T p"
  shows "is_ten3 (K p) (T p) (nu p) (r_perturbed_action v')"
proof -
  let ?u = "replicate (M p) (map (\<lambda>row. map (\<lambda>a. Fin (u_scale p) * a) (row ! t)) (r_perturbed_action v))"
  from assms(1) obtain u1 pa1 s' u2 c where
    na: "null_action p t ?u (r_perturbed_action v) = Inr (u1, pa1)"
    and u2: "is_ten3 1 (K p) (nu p) u2"
    and v': "r_perturbed_action v' = map (\<lambda>k. (pa1 ! k)[t := u2 ! 0 ! k]) [0..<K p]"
    by (auto simp: rollout_step_def Let_def ebind_Inr_iff split: if_splits prod.splits)
  have pa1: "is_ten3 (K p) (T p) (nu p) pa1"
    using na assms(2) scaled_u_shape[OF assms(2,3)] by (rule null_action_shape)
  have "is_mat (T p) (nu p) ((pa1 ! k)[t := u2 ! 0 ! k])" if "k < K p" for k
  proof -
    have "is_mat (K p) (nu p) (u2 ! 0)" using u2 by (simp add: is_ten3_nth)
    then have "length (u2 ! 0 ! k) = nu p" using that by (rule is_mat_nth)
    moreover have "is_mat (T p) (nu p) (pa1 ! k)" using pa1 that by (rule is_ten3_nth)
    ultimately show ?thesis by (intro is_mat_update)
  qed
  then show ?thesis unfolding v' by (simp add: is_ten3_def list_all_iff)
qed

lemma rollout_loop_shape:
  assumes "rollout_loop ext p ts v = Inr v'" and "is_ten3 (K p) (T p) (nu p) (r_perturbed_action v)"
    and "\<forall>t \<in> set ts. t < T p"
  shows "is_ten3 (K p) (T p) (nu p) (r_perturbed_action v')"
  using assms
proof (induction ts arbitrary: v)
  case Nil then show ?case by simp
next
  case (Cons t ts)
  from Cons.prems(1) obtain v1 where s: "rollout_step ext p t v = Inr v1"
    and l: "rollout_loop ext p ts v1 = Inr v'"
    by (auto simp: ebind_Inr_iff)
  have "is_ten3 (K p) (T p) (nu p) (r_perturbed_action v1)"
    using s Cons.prems(2,3) by (intro rollout_step_shape[of ext p t v v1]) simp_all
  with l Cons show ?case by simp
qed

lemma compute_rollout_costs_shape:
  assumes "compute_rollout_costs ext p pa = Inr (cost, sts, acts, pa2)"
  shows "is_ten3 (K p) (T p) (nu p) pa2 \<and> length cost = K p"
proof -
  from assms have sh: "is_ten3 (K p) (T p) (nu p) pa"
    by (auto simp: compute_rollout_costs_def split: if_splits)
  from assms sh obtain v0 v where "rollout_loop ext p [0..<T p] v0 = Inr v"
    and "r_perturbed_action v0 = pa" and "pa2 = r_perturbed_action v" and "length cost = K p"
    by (auto simp: compute_rollout_costs_def Let_def ebind_Inr_iff)
  then show ?thesis using rollout_loop_shape[of ext p "[0..<T p]" v0 v] sh by simp
qed

section \<open>What a successful cycle has computed\<close>

lemma ebind_prod_Inr_iff:
  "ebind m (\<lambda>(x, y). f x y) = Inr z \<longleftrightarrow> (\<exists>x y. m = Inr (x, y) \<and> f x y = Inr z)"
  by (cases m) (auto simp: ebind_def)

lemma ebind_prod4_Inr_iff:
  "ebind m (\<lambda>(w, x, y, v). f w x y v) = Inr z
     \<longleftrightarrow> (\<exists>w x y v. m = Inr (w, x, y, v) \<and> f w x y v = Inr z)"
  by (cases m) (auto simp: ebind_def)

lemma command_result:
  assumes "command ext p s = Inr (a, p')"
  obtains cost p2 nz om where
    "compute_total_cost_batch ext (p\<lparr> U := torch_roll (U p), state := s \<rparr>) = Inr (cost, p2)"
    and "command_weights cost (lambda p2) = Inr (nz, om)"
    and "p' = p2\<lparr> cost_total_non_zero := nz, omega := om,
                   U := update_U p2 (U p2) om (noise p2) \<rparr>"
    and "command_return ext p' cost = Inr a"
proof -
  let ?p1 = "p\<lparr> U := torch_roll (U p), state := s \<rparr>"
  have "\<exists>cost p2. compute_total_cost_batch ext ?p1 = Inr (cost, p2)"
    using assms by (cases "compute_total_cost_batch ext ?p1") (auto simp: command_def ebind_def)
  then obtain cost p2 where c: "compute_total_cost_batch ext ?p1 = Inr (cost, p2)"
    by blast
  have "\<exists>nz om. command_weights cost (lambda p2) = Inr (nz, om)"
    using assms c
    by (cases "command_weights cost (lambda p2)") (auto simp: command_def ebind_def)
  then obtain nz om where w: "command_weights cost (lambda p2) = Inr (nz, om)"
    by blast
  let ?p3 = "p2\<lparr> cost_total_non_zero := nz, omega := om,
                   U := update_U p2 (U p2) om (noise p2) \<rparr>"
  have e: "ebind (command_return ext ?p3 cost) (\<lambda>a. Inr (a, ?p3)) = Inr (a, p')"
    using assms c w by (simp add: command_def ebind_def Let_def)
  then obtain a' where r: "command_return ext ?p3 cost = Inr a'" and "(a', ?p3) = (a, p')"
    unfolding ebind_Inr_iff by blast
  then have "a' = a" and "p' = ?p3" by simp_all
  with c w r that show ?thesis by blast
qed


lemma ctcb_result:
  assumes "compute_total_cost_batch ext p = Inr (cost, p2)"
  obtains sts acts pa2 where "is_mat (T p) (nu p) (U p)" and "is_ten3 (K p) (T p) (nu p) pa2"
    and "length cost = K p"
    and "p2 = p\<lparr> noise := map (\<lambda>pk. map2 (map2 (-)) pk (U p)) pa2, perturbed_action := pa2,
                  cost_total := cost, states := sts, actions := acts \<rparr>"
proof -
  have um: "is_mat (T p) (nu p) (U p)"
    using assms unfolding compute_total_cost_batch_def by (simp split: if_splits)
  let ?pa1 = "bound_action p (map (\<lambda>nk. map2 (map2 (+)) (U p) nk) (sample_noise ext p))"
  have "\<exists>cost0 sts acts0 pa2. compute_rollout_costs ext p ?pa1 = Inr (cost0, sts, acts0, pa2)"
    using assms um
    by (cases "compute_rollout_costs ext p ?pa1")
       (auto simp: compute_total_cost_batch_def ebind_def)
  then obtain cost0 sts acts0 pa2 where
    r: "compute_rollout_costs ext p ?pa1 = Inr (cost0, sts, acts0, pa2)"
    by blast
  from compute_rollout_costs_shape[OF r] have sh: "is_ten3 (K p) (T p) (nu p) pa2"
    and l0: "length cost0 = K p" by simp_all
  have lpa: "length pa2 = K p" using sh by (rule is_ten3_length)
  let ?n1 = "map (\<lambda>pk. map2 (map2 (-)) pk (U p)) pa2"
  have inv: "is_mat (nu p) (nu p) (noise_sigma_inv p)"
    using assms um r unfolding compute_total_cost_batch_def
    by (simp add: ebind_def split: if_splits)
  have c: "cost = map2 (+) cost0 (perturbation_cost p ?n1)"
    using assms um r inv unfolding compute_total_cost_batch_def
    by (simp add: ebind_def Let_def)
  have p2: "p2 = p\<lparr> noise := ?n1, perturbed_action := pa2,
                  cost_total := cost, states := sts,
                  actions := map (map (map (map (\<lambda>a. a / Fin (u_scale p))))) acts0 \<rparr>"
    using assms um r inv unfolding compute_total_cost_batch_def
    by (auto simp: ebind_def Let_def)
  have "length cost = K p"
    unfolding c by (simp add: perturbation_cost_def action_cost_def l0 lpa)
  then show ?thesis using that um sh p2 by blast
qed

lemma command_return_elements:
  assumes "command_return ext p cost = Inr a"
  shows "set (action_elements a) \<subseteq> \<Union> (set ` set (U p))"
proof -
  have sub: "set (py_slice_to (U p) n) \<subseteq> set (U p)" for n
    unfolding py_slice_to_def by (rule set_take_subset)
  from assms have "a = Mat (py_slice_to (U p) (u_per_command p))
      \<or> (\<exists>r rest. py_slice_to (U p) (u_per_command p) = r # rest \<and> a = Vec r)"
    unfolding command_return_def Let_def
    by (auto simp: ebind_Inr_iff split: if_splits list.splits)
  then show ?thesis
  proof
    assume "a = Mat (py_slice_to (U p) (u_per_command p))"
    then show ?thesis using sub by auto
  next
    assume "\<exists>r rest. py_slice_to (U p) (u_per_command p) = r # rest \<and> a = Vec r"
    then obtain r rest where e: "py_slice_to (U p) (u_per_command p) = r # rest" and a: "a = Vec r"
      by blast
    have "r \<in> set (U p)" using sub[of "u_per_command p"] e by simp
    then show ?thesis using a by auto
  qed
qed

section \<open>The update of the nominal sequence is a convex combination\<close>

lemma between_Fin:
  assumes "Fin lo \<le> y" and "y \<le> Fin hi"
  obtains r where "y = Fin r" and "lo \<le> r" and "r \<le> hi"
  using assms by (cases y) simp_all

lemma convex_combination_real:
  fixes ws :: "real list" and xr :: "nat \<Rightarrow> real"
  assumes "\<forall>w \<in> set ws. 0 \<le> w" and "sum_list ws = 1"
    and "\<forall>k < length ws. lo \<le> xr k \<and> xr k \<le> hi"
  shows "lo \<le> u + sum_list (map (\<lambda>k. ws ! k * (xr k - u)) [0..<length ws])"
    and "u + sum_list (map (\<lambda>k. ws ! k * (xr k - u)) [0..<length ws]) \<le> hi"
proof -
  let ?n = "length ws"
  have one: "(\<Sum>k = 0..<?n. ws ! k) = 1"
    using assms(2) by (simp add: sum_list_sum_nth)
  have nn: "0 \<le> ws ! k" if "k < ?n" for k
    using assms(1) that by simp
  have eq: "u + sum_list (map (\<lambda>k. ws ! k * (xr k - u)) [0..<?n]) = (\<Sum>k = 0..<?n. ws ! k * xr k)"
  proof -
    have "sum_list (map (\<lambda>k. ws ! k * (xr k - u)) [0..<?n])
        = (\<Sum>k = 0..<?n. ws ! k * (xr k - u))"
      by (simp add: interv_sum_list_conv_sum_set_nat)
    also have "\<dots> = (\<Sum>k = 0..<?n. ws ! k * xr k) - u * (\<Sum>k = 0..<?n. ws ! k)"
      by (simp add: algebra_simps sum_subtractf sum_distrib_left)
    finally show ?thesis using one by simp
  qed
  have "(\<Sum>k = 0..<?n. ws ! k * lo) \<le> (\<Sum>k = 0..<?n. ws ! k * xr k)"
    using assms(3) nn by (intro sum_mono mult_left_mono) simp_all
  moreover have "(\<Sum>k = 0..<?n. ws ! k * lo) = lo"
    using one by (simp add: sum_distrib_right[symmetric])
  ultimately show "lo \<le> u + sum_list (map (\<lambda>k. ws ! k * (xr k - u)) [0..<?n])"
    using eq by simp
  have "(\<Sum>k = 0..<?n. ws ! k * xr k) \<le> (\<Sum>k = 0..<?n. ws ! k * hi)"
    using assms(3) nn by (intro sum_mono mult_left_mono) simp_all
  moreover have "(\<Sum>k = 0..<?n. ws ! k * hi) = hi"
    using one by (simp add: sum_distrib_right[symmetric])
  ultimately show "u + sum_list (map (\<lambda>k. ws ! k * (xr k - u)) [0..<?n]) \<le> hi"
    using eq by simp
qed

lemma convex_update:
  fixes ws :: "real list" and x :: "nat \<Rightarrow> tval"
  assumes "\<forall>w \<in> set ws. 0 \<le> w" and "sum_list ws = 1"
    and "\<forall>k < length ws. Fin lo \<le> x k \<and> x k \<le> Fin hi"
  shows "Fin lo \<le> Fin u + sum_list (map (\<lambda>k. map Fin ws ! k * (x k - Fin u)) [0..<length ws])
       \<and> Fin u + sum_list (map (\<lambda>k. map Fin ws ! k * (x k - Fin u)) [0..<length ws]) \<le> Fin hi"
proof -
  define xr where "xr k = the_fin (x k)" for k
  have x: "x k = Fin (xr k) \<and> lo \<le> xr k \<and> xr k \<le> hi" if "k < length ws" for k
  proof -
    from assms(3) that have "Fin lo \<le> x k" and "x k \<le> Fin hi" by simp_all
    then obtain r where "x k = Fin r" "lo \<le> r" "r \<le> hi" by (rule between_Fin)
    then show ?thesis by (simp add: xr_def)
  qed
  have "map (\<lambda>k. map Fin ws ! k * (x k - Fin u)) [0..<length ws]
      = map (Fin \<circ> (\<lambda>k. ws ! k * (xr k - u))) [0..<length ws]"
    by (rule map_cong) (simp_all add: x)
  then have s: "sum_list (map (\<lambda>k. map Fin ws ! k * (x k - Fin u)) [0..<length ws])
      = Fin (sum_list (map (\<lambda>k. ws ! k * (xr k - u)) [0..<length ws]))"
    by (simp only: sum_list_Fin_comp)
  have b: "\<forall>k < length ws. lo \<le> xr k \<and> xr k \<le> hi" using x by simp
  show ?thesis
    unfolding s using convex_combination_real[OF assms(1,2) b, of u] by simp
qed

lemma softmin_real_props:
  fixes cs :: "real list" and lam :: real
  defines "e \<equiv> map (\<lambda>c. exp (- (1 / lam) * (c - Min (set cs)))) cs"
  defines "ws \<equiv> map (\<lambda>x. 1 / sum_list e * x) e"
  assumes "cs \<noteq> []"
  shows "length ws = length cs" and "\<forall>w \<in> set ws. 0 \<le> w" and "sum_list ws = 1"
proof -
  have epos: "\<forall>x\<in>set e. 0 < x"
    by (auto simp: e_def)
  have "e \<noteq> []"
    using assms(3) by (simp add: e_def)
  then have pos: "0 < sum_list e"
    using epos by (rule sum_list_pos_real)
  show "length ws = length cs"
    by (simp add: ws_def e_def)
  show "\<forall>w \<in> set ws. 0 \<le> w"
    using epos pos by (auto simp: ws_def intro!: divide_nonneg_pos less_imp_le)
  have "sum_list ws = 1 / sum_list e * sum_list e"
    unfolding ws_def by (rule sum_list_mult_real)
  then show "sum_list ws = 1"
    using pos by simp
qed

lemma command_weights_finite:
  assumes "command_weights cost lam = Inr (nz, om)" and "list_all is_fin cost"
  obtains ws where "om = map Fin ws" and "length ws = length cost"
    and "\<forall>w \<in> set ws. 0 \<le> w" and "sum_list ws = 1"
proof -
  from assms(1) have ne: "cost \<noteq> []"
    by (auto simp: command_weights_def torch_min_def ebind_def)
  from assms(1) ne have lam: "lam \<noteq> 0"
    by (cases cost) (auto simp: command_weights_def torch_min_def ebind_def py_div_def
        split: if_splits)
  define cs where "cs = map the_fin cost"
  have ct: "cost = map Fin cs" and cne: "cs \<noteq> []"
    using assms(2) ne all_fin_map by (simp_all add: cs_def)
  define e where "e = map (\<lambda>c. exp (- (1 / lam) * (c - Min (set cs)))) cs"
  define ws where "ws = map (\<lambda>x. 1 / sum_list e * x) e"
  have "command_weights cost lam = Inr (map Fin e, map Fin ws)"
    unfolding ct e_def ws_def using cne lam by (rule command_weights_Fin)
  with assms(1) have "om = map Fin ws" by simp
  moreover have "length ws = length cost"
    using softmin_real_props(1)[OF cne, of lam] by (simp add: ws_def e_def ct)
  moreover have "\<forall>w \<in> set ws. 0 \<le> w"
    using softmin_real_props(2)[OF cne, of lam] by (simp add: ws_def e_def)
  moreover have "sum_list ws = 1"
    using softmin_real_props(3)[OF cne, of lam] by (simp add: ws_def e_def)
  ultimately show ?thesis using that by blast
qed

lemma set_torch_roll: "set (torch_roll xs) = set xs"
  by (cases xs) (auto simp: torch_roll_def)

lemma length_torch_roll: "length (torch_roll xs) = length xs"
  by (cases xs) (simp_all add: torch_roll_def)

lemma noise_nth:
  assumes "is_ten3 a r c pa" and "is_mat r c U1" and "k < a" and "t < r" and "j < c"
  shows "map (\<lambda>pk. map2 (map2 (-)) pk U1) pa ! k ! t ! j = pa ! k ! t ! j - U1 ! t ! j"
proof -
  have m: "is_mat r c (pa ! k)" using assms(1,3) by (rule is_ten3_nth)
  have l1: "length (pa ! k) = r" using m by (rule is_mat_length)
  have l2: "length U1 = r" using assms(2) by (rule is_mat_length)
  have l3: "length (pa ! k ! t) = c" using m assms(4) by (rule is_mat_nth)
  have l4: "length (U1 ! t) = c" using assms(2,4) by (rule is_mat_nth)
  have "length pa = a" using assms(1) by (rule is_ten3_length)
  then show ?thesis using assms(3,4,5) l1 l2 l3 l4 by simp
qed

text \<open>
  Take a planning cycle of \<^verbatim>\<open>command\<close> that returns, from a nominal sequence \<^verbatim>\<open>U\<close> of
  finite values and with finite total costs. The updated \<^verbatim>\<open>U\<close> is a convex combination of
  the actions recorded in \<^verbatim>\<open>self.perturbed_action\<close>: if they all lie in \<open>[u_min, u_max]\<close>,
  so does every element of the returned action.
\<close>

lemma update_within_recorded_bounds:
  assumes "command ext p s = Inr (a, p')"
    and "list_all (list_all is_fin) (U p)"
    and "list_all is_fin (cost_total p')"
    and "list_all (list_all (list_all (\<lambda>x. Fin (u_min p) \<le> x \<and> x \<le> Fin (u_max p))))
           (perturbed_action p')"
  shows "list_all (\<lambda>x. Fin (u_min p) \<le> x \<and> x \<le> Fin (u_max p)) (action_elements a)"
proof -
  let ?p1 = "p\<lparr> U := torch_roll (U p), state := s \<rparr>"
  let ?U1 = "torch_roll (U p)"
  from assms(1) obtain cost p2 nz om where
    c: "compute_total_cost_batch ext ?p1 = Inr (cost, p2)"
    and w: "command_weights cost (lambda p2) = Inr (nz, om)"
    and p': "p' = p2\<lparr> cost_total_non_zero := nz, omega := om,
                   U := update_U p2 (U p2) om (noise p2) \<rparr>"
    and ret: "command_return ext p' cost = Inr a"
    by (rule command_result)
  from c obtain sts acts pa2 where
    um: "is_mat (T ?p1) (nu ?p1) (U ?p1)"
    and sh: "is_ten3 (K ?p1) (T ?p1) (nu ?p1) pa2"
    and lc: "length cost = K ?p1"
    and p2: "p2 = ?p1\<lparr> noise := map (\<lambda>pk. map2 (map2 (-)) pk (U ?p1)) pa2,
                  perturbed_action := pa2, cost_total := cost, states := sts, actions := acts \<rparr>"
    by (rule ctcb_result)
  have um': "is_mat (T p) (nu p) ?U1" using um by simp
  have sh': "is_ten3 (K p) (T p) (nu p) pa2" using sh by simp
  have pa': "perturbed_action p' = pa2" and ct': "cost_total p' = cost"
    by (simp_all add: p' p2)
  have Up': "U p' = update_U p ?U1 om (map (\<lambda>pk. map2 (map2 (-)) pk ?U1) pa2)"
    by (simp add: p' p2 update_U_def)
  from w assms(3) obtain ws where om: "om = map Fin ws" and lw: "length ws = K p"
    and wnn: "\<forall>w \<in> set ws. 0 \<le> w" and w1: "sum_list ws = 1"
    using lc unfolding ct' by (auto elim!: command_weights_finite)
  have fin: "is_fin (?U1 ! t ! j)" if "t < T p" "j < nu p" for t j
  proof -
    have "list_all (list_all is_fin) ?U1"
      using assms(2) by (simp add: list_all_iff set_torch_roll)
    moreover have "length ?U1 = T p" using um' by (rule is_mat_length)
    moreover have "length (?U1 ! t) = nu p" using um' that(1) by (rule is_mat_nth)
    ultimately show ?thesis using that by (simp add: list_all_length)
  qed
  have inb: "Fin (u_min p) \<le> pa2 ! k ! t ! j \<and> pa2 ! k ! t ! j \<le> Fin (u_max p)"
    if "k < K p" "t < T p" "j < nu p" for k t j
  proof -
    have m: "is_mat (T p) (nu p) (pa2 ! k)" using sh' that(1) by (rule is_ten3_nth)
    have "length pa2 = K p" using sh' by (rule is_ten3_length)
    moreover have "length (pa2 ! k) = T p" using m by (rule is_mat_length)
    moreover have "length (pa2 ! k ! t) = nu p" using m that(2) by (rule is_mat_nth)
    ultimately show ?thesis
      using assms(4) that unfolding pa' by (simp add: list_all_length)
  qed
  have elem: "Fin (u_min p) \<le> U p' ! t ! j \<and> U p' ! t ! j \<le> Fin (u_max p)"
    if t: "t < T p" and j: "j < nu p" for t j
  proof -
    obtain u where u: "?U1 ! t ! j = Fin u"
      using fin[OF t j] by (cases "?U1 ! t ! j") simp_all
    have "map (\<lambda>k. om ! k * map (\<lambda>pk. map2 (map2 (-)) pk ?U1) pa2 ! k ! t ! j) [0..<K p]
        = map (\<lambda>k. map Fin ws ! k * (pa2 ! k ! t ! j - Fin u)) [0..<length ws]"
      unfolding lw
      by (rule map_cong) (simp_all add: noise_nth[OF sh' um' _ t j] u om)
    then have "U p' ! t ! j = Fin u
        + sum_list (map (\<lambda>k. map Fin ws ! k * (pa2 ! k ! t ! j - Fin u)) [0..<length ws])"
      unfolding Up' update_U_def using t j by (simp add: u)
    moreover have "\<forall>k < length ws. Fin (u_min p) \<le> pa2 ! k ! t ! j \<and> pa2 ! k ! t ! j \<le> Fin (u_max p)"
      using inb t j lw by simp
    ultimately show ?thesis
      using convex_update[OF wnn w1, of "u_min p" "\<lambda>k. pa2 ! k ! t ! j" "u_max p" u] by simp
  qed
  have "Fin (u_min p) \<le> x \<and> x \<le> Fin (u_max p)" if "x \<in> set (action_elements a)" for x
  proof -
    from command_return_elements[OF ret] that obtain row where
      row: "row \<in> set (U p')" and x: "x \<in> set row" by auto
    have lU: "length (U p') = T p" by (simp add: Up' update_U_def)
    from row obtain t where t: "t < T p" and rt: "row = U p' ! t"
      unfolding in_set_conv_nth lU by blast
    have "length (U p' ! t) = nu p" using t by (simp add: Up' update_U_def)
    with x rt obtain j where j: "j < nu p" and xj: "x = U p' ! t ! j"
      unfolding in_set_conv_nth by auto
    show ?thesis unfolding xj using t j by (rule elem)
  qed
  then show ?thesis by (simp add: list_all_iff)
qed

section \<open>The recorded actions of a cycle without scaling\<close>

lemma Fin1_times [simp]: "Fin 1 * x = x"
  by (cases x) simp_all

lemma clip_within:
  assumes "lo \<le> hi" and "is_fin x"
  shows "Fin lo \<le> tmax (tmin x (Fin hi)) (Fin lo) \<and> tmax (tmin x (Fin hi)) (Fin lo) \<le> Fin hi"
  using assms by (cases x) simp_all

lemma bound_action_within:
  assumes "u_min p \<le> u_max p" and "list_all (list_all (list_all is_fin)) X"
  shows "list_all (list_all (list_all (\<lambda>x. Fin (u_min p) \<le> x \<and> x \<le> Fin (u_max p))))
           (bound_action p X)"
  using assms unfolding bound_action_def list_all_iff
  by (auto intro!: clip_within)


lemma list_all_update: "list_all P xs \<Longrightarrow> P y \<Longrightarrow> list_all P (xs[i := y])"
  by (auto simp: list_all_iff dest!: set_update_subset_insert[THEN subsetD])

lemma null_action_keeps_bounds:
  fixes P :: "tval \<Rightarrow> bool"
  assumes na: "null_action p t u pa = Inr (u1, pa1)" and sh: "is_ten3 (K p) (T p) (nu p) pa"
    and ush: "is_ten3 (M p) (K p) (nu p) u"
    and zero: "P (Fin 0)"
    and pa: "list_all (list_all (list_all P)) pa" and u: "list_all (list_all (list_all P)) u"
  shows "list_all (list_all (list_all P)) pa1 \<and> list_all (list_all (list_all P)) u1"
proof (cases "sample_null_action p")
  case False
  with na pa u show ?thesis by (simp add: null_action_def)
next
  case True
  with na have k: "K p \<noteq> 0" and m: "M p = 1"
    by (auto simp: null_action_def Let_def split: if_splits)
  define z where "z = replicate (nu p) (Fin 0)"
  have u1: "u1 = map (\<lambda>um. um[K p - 1 := z]) u"
    and pa1: "pa1 = pa[K p - 1 := (pa ! (K p - 1))[t := u1 ! 0 ! (K p - 1)]]"
    using na True k m by (auto simp: null_action_def Let_def z_def)
  have zP: "list_all P z" using zero by (simp add: z_def list_all_iff)
  have u1P: "list_all (list_all (list_all P)) u1"
    unfolding u1 using u zP by (auto simp: list_all_iff dest!: set_update_subset_insert[THEN subsetD])
  have "is_mat (K p) (nu p) (u ! 0)"
    using ush m by (intro is_ten3_nth[where a = "M p"]) simp_all
  then have "length (u ! 0) = K p" by (rule is_mat_length)
  moreover have "length u = 1" using is_ten3_length[OF ush] m by simp
  ultimately have "u1 ! 0 ! (K p - 1) = z"
    using k by (simp add: u1)
  moreover have "list_all (list_all P) (pa ! (K p - 1))"
    using pa k is_ten3_length[OF sh] by (simp add: list_all_length)
  ultimately have "list_all (list_all P) ((pa ! (K p - 1))[t := u1 ! 0 ! (K p - 1)])"
    using zP by (simp add: list_all_update)
  then have "list_all (list_all (list_all P)) pa1"
    unfolding pa1 using pa by (rule list_all_update[rotated])
  with u1P show ?thesis by simp
qed

lemma rollout_step_keeps_bounds:
  fixes P :: "tval \<Rightarrow> bool"
  assumes step: "rollout_step ext p t v = Inr v'"
    and sh: "is_ten3 (K p) (T p) (nu p) (r_perturbed_action v)" and t: "t < T p"
    and scale: "u_scale p = 1"
    and same: "\<forall>s u r. dynamics ext s u None = Inr r \<longrightarrow> snd r = u"
    and zero: "P (Fin 0)"
    and pa: "list_all (list_all (list_all P)) (r_perturbed_action v)"
  shows "list_all (list_all (list_all P)) (r_perturbed_action v')"
proof -
  let ?u = "replicate (M p) (map (\<lambda>row. map (\<lambda>a. Fin (u_scale p) * a) (row ! t)) (r_perturbed_action v))"
  have uP: "list_all (list_all (list_all P)) ?u"
  proof -
    have "list_all P (row ! t)" if "row \<in> set (r_perturbed_action v)" for row
    proof -
      from that sh have "is_mat (T p) (nu p) row" by (simp add: is_ten3_def list_all_iff)
      then have "length row = T p" by (rule is_mat_length)
      moreover from that pa have "list_all (list_all P) row" by (simp add: list_all_iff)
      ultimately show ?thesis using t by (simp add: list_all_length)
    qed
    then show ?thesis by (auto simp: list_all_iff scale)
  qed
  have "\<exists>u1 pa1. null_action p t ?u (r_perturbed_action v) = Inr (u1, pa1)"
    using step
    by (cases "null_action p t ?u (r_perturbed_action v)")
       (auto simp: rollout_step_def ebind_def Let_def)
  then obtain u1 pa1 where na: "null_action p t ?u (r_perturbed_action v) = Inr (u1, pa1)"
    by blast
  have "\<exists>st' u2. dynamics ext (r_state v) u1 None = Inr (st', u2)"
    using step na
    by (cases "dynamics ext (r_state v) u1 None") (auto simp: rollout_step_def ebind_def Let_def)
  then obtain st' u2 where d: "dynamics ext (r_state v) u1 None = Inr (st', u2)"
    by blast
  have u2: "u2 = u1" using same d by fastforce
  have "\<exists>c. running_cost ext st' = Inr c"
    using step na d
    by (cases "running_cost ext st'") (auto simp: rollout_step_def ebind_def Let_def)
  then obtain c where c: "running_cost ext st' = Inr c"
    by blast
  have g: "is_ten3 1 (K p) (nu p) u2"
    using step na d c by (auto simp: rollout_step_def ebind_def Let_def split: if_splits)
  have v': "r_perturbed_action v' = map (\<lambda>k. (pa1 ! k)[t := u2 ! 0 ! k]) [0..<K p]"
    using step na d c g by (auto simp: rollout_step_def ebind_def Let_def split: if_splits)
  from null_action_keeps_bounds[OF na sh scaled_u_shape[OF sh t] zero pa uP]
  have pa1P: "list_all (list_all (list_all P)) pa1" and u1P: "list_all (list_all (list_all P)) u1"
    by simp_all
  have pa1sh: "is_ten3 (K p) (T p) (nu p) pa1"
    using na sh scaled_u_shape[OF sh t] by (rule null_action_shape)
  have "list_all (list_all P) ((pa1 ! k)[t := u2 ! 0 ! k])" if "k < K p" for k
  proof -
    have "list_all (list_all P) (pa1 ! k)"
      using pa1P that is_ten3_length[OF pa1sh] by (simp add: list_all_length)
    moreover have "list_all (list_all P) (u2 ! 0)"
      using u1P g unfolding u2 by (simp add: list_all_length is_ten3_def)
    then have "list_all P (u2 ! 0 ! k)"
      using that is_mat_length[OF is_ten3_nth[OF g, of 0]] by (simp add: list_all_length)
    ultimately show ?thesis by (rule list_all_update)
  qed
  then show ?thesis unfolding v' by (simp add: list_all_iff)
qed

lemma rollout_loop_keeps_bounds:
  fixes P :: "tval \<Rightarrow> bool"
  assumes "rollout_loop ext p ts v = Inr v'"
    and "is_ten3 (K p) (T p) (nu p) (r_perturbed_action v)" and "\<forall>t \<in> set ts. t < T p"
    and "u_scale p = 1"
    and "\<forall>s u r. dynamics ext s u None = Inr r \<longrightarrow> snd r = u"
    and "P (Fin 0)"
    and "list_all (list_all (list_all P)) (r_perturbed_action v)"
  shows "list_all (list_all (list_all P)) (r_perturbed_action v')"
  using assms(1,2,3,7)
proof (induction ts arbitrary: v)
  case Nil
  then show ?case by simp
next
  case (Cons t ts)
  from Cons.prems(1) obtain v1 where s: "rollout_step ext p t v = Inr v1"
    and l: "rollout_loop ext p ts v1 = Inr v'"
    by (auto simp: ebind_Inr_iff)
  have t: "t < T p" using Cons.prems(3) by simp
  have sh1: "is_ten3 (K p) (T p) (nu p) (r_perturbed_action v1)"
    using s Cons.prems(2) t by (rule rollout_step_shape)
  have "list_all (list_all (list_all P)) (r_perturbed_action v1)"
    using s Cons.prems(2) t assms(4,5,6) Cons.prems(4) by (rule rollout_step_keeps_bounds)
  with Cons.IH[OF l sh1] Cons.prems(3) show ?case by simp
qed

lemma ctcb_rollout:
  assumes "compute_total_cost_batch ext p = Inr (cost, p2)"
  obtains cost0 sts acts0 where
    "compute_rollout_costs ext p
       (bound_action p (map (\<lambda>nk. map2 (map2 (+)) (U p) nk) (sample_noise ext p)))
     = Inr (cost0, sts, acts0, perturbed_action p2)"
proof -
  have um: "is_mat (T p) (nu p) (U p)"
    using assms unfolding compute_total_cost_batch_def by (simp split: if_splits)
  let ?pa1 = "bound_action p (map (\<lambda>nk. map2 (map2 (+)) (U p) nk) (sample_noise ext p))"
  have "\<exists>cost0 sts acts0 pa2. compute_rollout_costs ext p ?pa1 = Inr (cost0, sts, acts0, pa2)"
    using assms um
    by (cases "compute_rollout_costs ext p ?pa1")
       (auto simp: compute_total_cost_batch_def ebind_def)
  then obtain cost0 sts acts0 pa2 where
    r: "compute_rollout_costs ext p ?pa1 = Inr (cost0, sts, acts0, pa2)"
    by blast
  have "perturbed_action p2 = pa2"
    using assms um r unfolding compute_total_cost_batch_def
    by (auto simp: ebind_def Let_def split: if_splits)
  with r that show ?thesis by blast
qed

lemma compute_rollout_costs_loop:
  assumes "compute_rollout_costs ext p pa = Inr (cost, sts, acts, pa2)"
  obtains v0 v where "rollout_loop ext p [0..<T p] v0 = Inr v"
    and "r_perturbed_action v0 = pa" and "r_perturbed_action v = pa2"
    and "is_ten3 (K p) (T p) (nu p) pa"
proof -
  from assms have sh: "is_ten3 (K p) (T p) (nu p) pa"
    by (auto simp: compute_rollout_costs_def split: if_splits)
  from assms sh obtain v0 v where "rollout_loop ext p [0..<T p] v0 = Inr v"
    and "r_perturbed_action v0 = pa" and "pa2 = r_perturbed_action v"
    by (auto simp: compute_rollout_costs_def Let_def ebind_Inr_iff)
  with sh that show ?thesis by blast
qed

lemma plus_is_fin: "is_fin x \<Longrightarrow> is_fin y \<Longrightarrow> is_fin (x + y)"
  by (cases x; cases y) simp_all

lemma list_all_map2:
  assumes "list_all P xs" and "list_all Q ys" and "\<And>x y. P x \<Longrightarrow> Q y \<Longrightarrow> R (f x y)"
  shows "list_all R (map2 f xs ys)"
  using assms by (auto simp: list_all_iff) (meson set_zip_leftD set_zip_rightD)

lemma perturbed_is_fin:
  assumes "list_all (list_all is_fin) U1" and "\<forall>k t j. is_fin (noise_draw ext k t j)"
  shows "list_all (list_all (list_all is_fin))
           (map (\<lambda>nk. map2 (map2 (+)) U1 nk) (sample_noise ext p))"
proof -
  have "list_all (list_all is_fin) nk" if "nk \<in> set (sample_noise ext p)" for nk
    using that assms(2) by (auto simp: sample_noise_def list_all_iff)
  then have "list_all (list_all is_fin) (map2 (map2 (+)) U1 nk)"
    if "nk \<in> set (sample_noise ext p)" for nk
    using that assms(1)
    by (intro list_all_map2[where P = "list_all is_fin" and Q = "list_all is_fin"])
       (auto intro: list_all_map2[where P = is_fin and Q = is_fin] plus_is_fin)
  then show ?thesis by (simp add: list_all_iff)
qed

text \<open>
  The hypothesis of the bounds property on the recorded actions holds in the usual setting:
  \<^verbatim>\<open>u_scale = 1\<close>, a dynamics collaborator that returns the action it was given, bounds
  with \<open>u_min \<le> 0 \<le> u_max\<close>, and finite values in \<^verbatim>\<open>U\<close> and in the noise.
\<close>

lemma recorded_actions_within_bounds:
  assumes "command ext p s = Inr (a, p')"
    and "u_scale p = 1"
    and "\<forall>s u r. dynamics ext s u None = Inr r \<longrightarrow> snd r = u"
    and "u_min p \<le> 0" and "0 \<le> u_max p"
    and "list_all (list_all is_fin) (U p)"
    and "\<forall>k t j. is_fin (noise_draw ext k t j)"
  shows "list_all (list_all (list_all (\<lambda>x. Fin (u_min p) \<le> x \<and> x \<le> Fin (u_max p))))
           (perturbed_action p')"
proof -
  let ?p1 = "p\<lparr> U := torch_roll (U p), state := s \<rparr>"
  let ?P = "\<lambda>x. Fin (u_min p) \<le> x \<and> x \<le> Fin (u_max p)"
  from assms(1) obtain cost p2 nz om where
    c: "compute_total_cost_batch ext ?p1 = Inr (cost, p2)"
    and p': "p' = p2\<lparr> cost_total_non_zero := nz, omega := om,
                   U := update_U p2 (U p2) om (noise p2) \<rparr>"
    by (rule command_result)
  let ?pa1 = "bound_action ?p1 (map (\<lambda>nk. map2 (map2 (+)) (U ?p1) nk) (sample_noise ext ?p1))"
  from c obtain cost0 sts acts0 where
    r: "compute_rollout_costs ext ?p1 ?pa1 = Inr (cost0, sts, acts0, perturbed_action p2)"
    by (rule ctcb_rollout)
  from r obtain v0 v where l: "rollout_loop ext ?p1 [0..<T ?p1] v0 = Inr v"
    and v0: "r_perturbed_action v0 = ?pa1" and v: "r_perturbed_action v = perturbed_action p2"
    and sh: "is_ten3 (K ?p1) (T ?p1) (nu ?p1) ?pa1"
    by (rule compute_rollout_costs_loop)
  have fin: "list_all (list_all (list_all is_fin))
               (map (\<lambda>nk. map2 (map2 (+)) (U ?p1) nk) (sample_noise ext ?p1))"
    using assms(6,7) by (intro perturbed_is_fin) (simp_all add: list_all_iff set_torch_roll)
  have "list_all (list_all (list_all (\<lambda>x. Fin (u_min ?p1) \<le> x \<and> x \<le> Fin (u_max ?p1)))) ?pa1"
    using assms(4,5) fin by (intro bound_action_within) simp_all
  then have start: "list_all (list_all (list_all ?P)) (r_perturbed_action v0)"
    unfolding v0 by simp
  have "list_all (list_all (list_all ?P)) (r_perturbed_action v)"
    using l _ _ _ assms(3) _ start
  proof (rule rollout_loop_keeps_bounds)
    show "is_ten3 (K ?p1) (T ?p1) (nu ?p1) (r_perturbed_action v0)"
      using sh unfolding v0 .
    show "\<forall>t\<in>set [0..<T ?p1]. t < T ?p1" by simp
    show "u_scale ?p1 = 1" using assms(2) by simp
    show "Fin (u_min p) \<le> Fin 0 \<and> Fin 0 \<le> Fin (u_max p)" using assms(4,5) by simp
  qed
  then show ?thesis by (simp add: v p')
qed

section \<open>Finite total costs, and the bounds of a cycle without scaling\<close>

lemma times_is_fin: "is_fin x \<Longrightarrow> is_fin y \<Longrightarrow> is_fin (x * y)"
  by (cases x; cases y) simp_all

lemma minus_is_fin: "is_fin x \<Longrightarrow> is_fin y \<Longrightarrow> is_fin (x - y)"
  by (cases x; cases y) simp_all

lemma abs_is_fin: "is_fin x \<Longrightarrow> is_fin \<bar>x\<bar>"
  by (cases x) simp_all

lemma divide_is_fin: "is_fin x \<Longrightarrow> d \<noteq> 0 \<Longrightarrow> is_fin (x / Fin d)"
  by (cases x) simp_all

lemma sum_list_is_fin: "list_all is_fin xs \<Longrightarrow> is_fin (sum_list xs)"
  by (induction xs) (simp_all add: zero_tval_def plus_is_fin)

lemma torch_mean_is_fin: "xs \<noteq> [] \<Longrightarrow> list_all is_fin xs \<Longrightarrow> is_fin (torch_mean xs)"
  unfolding torch_mean_def by (intro divide_is_fin sum_list_is_fin) simp_all

lemma vec_mat_is_fin:
  assumes "length r = n" and "list_all is_fin r" and "is_mat n n S"
    and "list_all (list_all is_fin) S"
  shows "list_all is_fin (vec_mat n r S)"
proof -
  have "is_fin (r ! i * S ! i ! j)" if "i < n" "j < n" for i j
  proof -
    have "is_fin (r ! i)" using assms(1,2) that(1) by (simp add: list_all_length)
    moreover have "length S = n" using assms(3) by (rule is_mat_length)
    moreover have "length (S ! i) = n" using assms(3) that(1) by (rule is_mat_nth)
    ultimately show ?thesis
      using assms(4) that by (intro times_is_fin) (simp_all add: list_all_length)
  qed
  then show ?thesis
    unfolding vec_mat_def by (auto simp: list_all_iff intro!: sum_list_is_fin)
qed

lemma map2_is_mat:
  assumes "is_mat r c A" and "is_mat r c B"
  shows "is_mat r c (map2 (map2 f) A B)"
proof -
  have "length (map2 f x y) = c" if "(x, y) \<in> set (zip A B)" for x y
  proof -
    from that have "x \<in> set A" and "y \<in> set B"
      by (auto dest: set_zip_leftD set_zip_rightD)
    then show ?thesis using assms by (simp add: is_mat_def list_all_iff)
  qed
  then show ?thesis using assms by (auto simp: is_mat_def list_all_iff)
qed

lemma map2_mat_is_fin:
  assumes "list_all (list_all is_fin) A" and "list_all (list_all is_fin) B"
  shows "list_all (list_all is_fin) (map2 (map2 (+)) A B)"
  using assms
  by (intro list_all_map2[where P = "list_all is_fin" and Q = "list_all is_fin"])
     (auto intro: list_all_map2[where P = is_fin and Q = is_fin] plus_is_fin)

lemma rollout_step_keeps_costs:
  assumes step: "rollout_step ext p t v = Inr v'"
    and sh: "is_ten3 (K p) (T p) (nu p) (r_perturbed_action v)" and t: "t < T p"
    and same: "\<forall>s u r. dynamics ext s u None = Inr r \<longrightarrow> snd r = u"
    and rc: "\<forall>s c. running_cost ext s = Inr c \<longrightarrow> list_all (list_all is_fin) c"
    and cm: "is_mat (M p) (K p) (r_cost_samples v)"
    and cf: "list_all (list_all is_fin) (r_cost_samples v)"
  shows "M p = 1 \<and> is_mat (M p) (K p) (r_cost_samples v')
     \<and> list_all (list_all is_fin) (r_cost_samples v') \<and> r_cost_var v' = r_cost_var v"
proof -
  let ?u = "replicate (M p) (map (\<lambda>row. map (\<lambda>a. Fin (u_scale p) * a) (row ! t)) (r_perturbed_action v))"
  have "\<exists>u1 pa1. null_action p t ?u (r_perturbed_action v) = Inr (u1, pa1)"
    using step
    by (cases "null_action p t ?u (r_perturbed_action v)")
       (auto simp: rollout_step_def ebind_def Let_def)
  then obtain u1 pa1 where na: "null_action p t ?u (r_perturbed_action v) = Inr (u1, pa1)"
    by blast
  have "\<exists>st' u2. dynamics ext (r_state v) u1 None = Inr (st', u2)"
    using step na
    by (cases "dynamics ext (r_state v) u1 None") (auto simp: rollout_step_def ebind_def Let_def)
  then obtain st' u2 where d: "dynamics ext (r_state v) u1 None = Inr (st', u2)"
    by blast
  have u2: "u2 = u1" using same d by fastforce
  have "\<exists>c. running_cost ext st' = Inr c"
    using step na d
    by (cases "running_cost ext st'") (auto simp: rollout_step_def ebind_def Let_def)
  then obtain c where c: "running_cost ext st' = Inr c"
    by blast
  have g: "is_ten3 1 (K p) (nu p) u2"
    using step na d c by (auto simp: rollout_step_def ebind_def Let_def split: if_splits)
  have gc: "is_mat (M p) (K p) c"
    using step na d c g by (auto simp: rollout_step_def ebind_def Let_def split: if_splits)
  have "length u1 = M p"
    using na by (auto simp: null_action_def Let_def split: if_splits)
  then have m: "M p = 1" using g unfolding u2 by (simp add: is_ten3_def)
  have cs': "r_cost_samples v' = map2 (map2 (+)) (r_cost_samples v) c"
    using step na d c g gc by (auto simp: rollout_step_def ebind_def Let_def split: if_splits)
  have cv': "r_cost_var v' = r_cost_var v"
    using step na d c g gc m by (auto simp: rollout_step_def ebind_def Let_def split: if_splits)
  have "list_all (list_all is_fin) c" using rc c by blast
  then have "list_all (list_all is_fin) (r_cost_samples v')"
    unfolding cs' using cf by (intro map2_mat_is_fin)
  moreover have "is_mat (M p) (K p) (r_cost_samples v')"
    unfolding cs' using cm gc by (rule map2_is_mat)
  ultimately show ?thesis using m cv' by simp
qed

lemma rollout_loop_keeps_costs:
  assumes "rollout_loop ext p ts v = Inr v'"
    and "is_ten3 (K p) (T p) (nu p) (r_perturbed_action v)" and "\<forall>t \<in> set ts. t < T p"
    and "\<forall>s u r. dynamics ext s u None = Inr r \<longrightarrow> snd r = u"
    and "\<forall>s c. running_cost ext s = Inr c \<longrightarrow> list_all (list_all is_fin) c"
    and "is_mat (M p) (K p) (r_cost_samples v)"
    and "list_all (list_all is_fin) (r_cost_samples v)"
  shows "(ts \<noteq> [] \<longrightarrow> M p = 1) \<and> is_mat (M p) (K p) (r_cost_samples v')
     \<and> list_all (list_all is_fin) (r_cost_samples v') \<and> r_cost_var v' = r_cost_var v
     \<and> (ts = [] \<longrightarrow> r_actions v' = r_actions v)"
  using assms(1,2,3,6,7)
proof (induction ts arbitrary: v)
  case Nil
  then show ?case by simp
next
  case (Cons t ts)
  from Cons.prems(1) obtain v1 where s: "rollout_step ext p t v = Inr v1"
    and l: "rollout_loop ext p ts v1 = Inr v'"
    by (auto simp: ebind_Inr_iff)
  have t: "t < T p" using Cons.prems(3) by simp
  have sh1: "is_ten3 (K p) (T p) (nu p) (r_perturbed_action v1)"
    using s Cons.prems(2) t by (rule rollout_step_shape)
  from rollout_step_keeps_costs[OF s Cons.prems(2) t assms(4,5) Cons.prems(4,5)]
  have m: "M p = 1" and cm: "is_mat (M p) (K p) (r_cost_samples v1)"
    and cf: "list_all (list_all is_fin) (r_cost_samples v1)"
    and cv: "r_cost_var v1 = r_cost_var v"
    by blast+
  from Cons.IH[OF l sh1 _ cm cf] Cons.prems(3) m cv show ?case by simp
qed

lemma compute_rollout_costs_finite:
  assumes r: "compute_rollout_costs ext p pa = Inr (cost, sts, acts, pa2)"
    and same: "\<forall>s u r. dynamics ext s u None = Inr r \<longrightarrow> snd r = u"
    and rc: "\<forall>s c. running_cost ext s = Inr c \<longrightarrow> list_all (list_all is_fin) c"
    and no_term: "terminal_state_cost ext = None"
  shows "list_all is_fin cost"
proof -
  define v0 where "v0 = \<lparr> r_state = initial_state p,
                   r_cost_samples = replicate (M p) (replicate (K p) (Fin 0)),
                   r_cost_var = replicate (K p) (Fin 0),
                   r_perturbed_action = pa,
                   r_states = [],
                   r_actions = [] \<rparr>"
  from r have sh: "is_ten3 (K p) (T p) (nu p) pa"
    by (auto simp: compute_rollout_costs_def split: if_splits)
  from r sh no_term obtain v where l: "rollout_loop ext p [0..<T p] v0 = Inr v"
    and st: "torch_stack (r_actions v) = Inr acts"
    and cost: "cost = map (\<lambda>k. (Fin 0 + torch_mean (map (\<lambda>row. row ! k) (r_cost_samples v)))
                          + r_cost_var v ! k * Fin (rollout_var_cost p)) [0..<K p]"
    by (auto simp: compute_rollout_costs_def Let_def ebind_Inr_iff v0_def
          add_terminal_cost_def)
  have inv: "([0..<T p] \<noteq> [] \<longrightarrow> M p = 1) \<and> is_mat (M p) (K p) (r_cost_samples v)
     \<and> list_all (list_all is_fin) (r_cost_samples v) \<and> r_cost_var v = r_cost_var v0
     \<and> ([0..<T p] = [] \<longrightarrow> r_actions v = r_actions v0)"
    using l _ _ same rc
  proof (rule rollout_loop_keeps_costs)
    show "is_ten3 (K p) (T p) (nu p) (r_perturbed_action v0)" using sh by (simp add: v0_def)
    show "\<forall>t\<in>set [0..<T p]. t < T p" by simp
    show "is_mat (M p) (K p) (r_cost_samples v0)"
      by (simp add: v0_def is_mat_def list_all_iff)
    show "list_all (list_all is_fin) (r_cost_samples v0)"
      by (simp add: v0_def list_all_iff)
  qed
  have "T p \<noteq> 0"
  proof
    assume "T p = 0"
    with inv have "r_actions v = []" by (simp add: v0_def)
    with st show False by (simp add: torch_stack_def)
  qed
  with inv have m: "M p = 1" by simp
  have cm: "is_mat 1 (K p) (r_cost_samples v)" using inv m by simp
  have cf: "list_all (list_all is_fin) (r_cost_samples v)" using inv by simp
  have cv: "r_cost_var v = replicate (K p) (Fin 0)" using inv by (simp add: v0_def)
  have "is_fin ((Fin 0 + torch_mean (map (\<lambda>row. row ! k) (r_cost_samples v)))
                  + r_cost_var v ! k * Fin (rollout_var_cost p))" if k: "k < K p" for k
  proof -
    have ne: "r_cost_samples v \<noteq> []" using cm by (auto simp: is_mat_def)
    have "is_fin (row ! k)" if "row \<in> set (r_cost_samples v)" for row
    proof -
      have "length row = K p" using cm that by (simp add: is_mat_def list_all_iff)
      moreover have "list_all is_fin row" using cf that by (simp add: list_all_iff)
      ultimately show ?thesis using k by (simp add: list_all_length)
    qed
    then have "list_all is_fin (map (\<lambda>row. row ! k) (r_cost_samples v))"
      by (simp add: list_all_iff)
    with ne have "is_fin (torch_mean (map (\<lambda>row. row ! k) (r_cost_samples v)))"
      by (intro torch_mean_is_fin) simp_all
    moreover have "r_cost_var v ! k = Fin 0" using k by (simp add: cv)
    ultimately show ?thesis by (intro plus_is_fin times_is_fin) simp_all
  qed
  then show ?thesis unfolding cost by (simp add: list_all_iff)
qed

lemma noise_shape:
  assumes "is_ten3 a r c pa" and "is_mat r c U1"
  shows "is_ten3 a r c (map (\<lambda>pk. map2 (map2 (-)) pk U1) pa)"
  using assms by (auto simp: is_ten3_def list_all_iff intro: map2_is_mat)

lemma noise_is_fin:
  assumes "list_all (list_all (list_all is_fin)) pa" and "list_all (list_all is_fin) U1"
  shows "list_all (list_all (list_all is_fin)) (map (\<lambda>pk. map2 (map2 (-)) pk U1) pa)"
proof -
  have "list_all (list_all is_fin) (map2 (map2 (-)) pk U1)" if "pk \<in> set pa" for pk
  proof -
    have "list_all (list_all is_fin) pk" using assms(1) that by (simp add: list_all_iff)
    then show ?thesis
      using assms(2)
      by (intro list_all_map2[where P = "list_all is_fin" and Q = "list_all is_fin"])
         (auto intro: list_all_map2[where P = is_fin and Q = is_fin] minus_is_fin)
  qed
  then show ?thesis by (simp add: list_all_iff)
qed

lemma perturbation_cost_is_fin:
  assumes sh: "is_ten3 a r (nu p) ns" and nf: "list_all (list_all (list_all is_fin)) ns"
    and inv: "is_mat (nu p) (nu p) (noise_sigma_inv p)"
    and invf: "list_all (list_all is_fin) (noise_sigma_inv p)"
    and uf: "list_all (list_all is_fin) (U p)"
  shows "list_all is_fin (perturbation_cost p ns)"
proof -
  have row: "list_all is_fin (vec_mat (nu p) (map f x) (noise_sigma_inv p))"
    if "x \<in> set nk" "nk \<in> set ns" "\<And>y. is_fin y \<Longrightarrow> is_fin (f y)" for x nk f
  proof -
    have "is_mat r (nu p) nk" using sh that(2) by (simp add: is_ten3_def list_all_iff)
    then have "length x = nu p" using that(1) by (simp add: is_mat_def list_all_iff)
    moreover have "list_all is_fin x" using nf that(1,2) by (simp add: list_all_iff)
    then have "list_all is_fin (map f x)" using that(3) by (simp add: list_all_iff)
    ultimately show ?thesis using inv invf by (intro vec_mat_is_fin) simp_all
  qed
  have f1: "is_fin (Fin (lambda p) * \<bar>y\<bar>)" if "is_fin y" for y
    using that by (intro times_is_fin abs_is_fin) simp_all
  have f2: "is_fin (Fin (lambda p) * y)" if "is_fin y" for y
    using that by (intro times_is_fin) simp_all
  have ac: "list_all (list_all (list_all is_fin)) (action_cost p ns)"
  proof (cases "noise_abs_cost p")
    case True
    then show ?thesis
      using row[of _ _ "\<lambda>a. Fin (lambda p) * \<bar>a\<bar>", OF _ _ f1]
      by (simp add: action_cost_def list_all_iff)
  next
    case False
    then show ?thesis
      using row[of _ _ "\<lambda>a. Fin (lambda p) * a", OF _ _ f2]
      by (simp add: action_cost_def list_all_iff)
  qed
  have "is_fin (sum_list (map sum_list (map2 (map2 (*)) (U p) ack)))"
    if "ack \<in> set (action_cost p ns)" for ack
  proof -
    have "list_all (list_all is_fin) ack" using ac that by (simp add: list_all_iff)
    with uf have "list_all (list_all is_fin) (map2 (map2 (*)) (U p) ack)"
      by (intro list_all_map2[where P = "list_all is_fin" and Q = "list_all is_fin"])
         (auto intro: list_all_map2[where P = is_fin and Q = is_fin] times_is_fin)
    then show ?thesis
      by (intro sum_list_is_fin) (simp add: list_all_iff sum_list_is_fin)
  qed
  then show ?thesis unfolding perturbation_cost_def by (simp add: list_all_iff)
qed

lemma between_is_fin: "Fin lo \<le> x \<and> x \<le> Fin hi \<Longrightarrow> is_fin x"
  by (cases x) simp_all

lemma ctcb_cost_finite:
  assumes c: "compute_total_cost_batch ext p = Inr (cost, p2)"
    and same: "\<forall>s u r. dynamics ext s u None = Inr r \<longrightarrow> snd r = u"
    and rc: "\<forall>s c. running_cost ext s = Inr c \<longrightarrow> list_all (list_all is_fin) c"
    and no_term: "terminal_state_cost ext = None"
    and uf: "list_all (list_all is_fin) (U p)"
    and invf: "list_all (list_all is_fin) (noise_sigma_inv p)"
    and paf: "list_all (list_all (list_all is_fin)) (perturbed_action p2)"
  shows "list_all is_fin cost"
proof -
  have um: "is_mat (T p) (nu p) (U p)"
    using c unfolding compute_total_cost_batch_def by (simp split: if_splits)
  let ?pa1 = "bound_action p (map (\<lambda>nk. map2 (map2 (+)) (U p) nk) (sample_noise ext p))"
  from c obtain cost0 sts acts0 where
    r: "compute_rollout_costs ext p ?pa1 = Inr (cost0, sts, acts0, perturbed_action p2)"
    by (rule ctcb_rollout)
  let ?pa2 = "perturbed_action p2"
  let ?n1 = "map (\<lambda>pk. map2 (map2 (-)) pk (U p)) ?pa2"
  have sh: "is_ten3 (K p) (T p) (nu p) ?pa2"
    using compute_rollout_costs_shape[OF r] by simp
  have inv: "is_mat (nu p) (nu p) (noise_sigma_inv p)"
    using c um r unfolding compute_total_cost_batch_def
    by (simp add: ebind_def split: if_splits)
  have cost: "cost = map2 (+) cost0 (perturbation_cost p ?n1)"
    using c um r inv unfolding compute_total_cost_batch_def
    by (simp add: ebind_def Let_def)
  have "list_all is_fin cost0"
    using r same rc no_term by (rule compute_rollout_costs_finite)
  moreover have "list_all is_fin (perturbation_cost p ?n1)"
    using noise_shape[OF sh um] noise_is_fin[OF paf uf] inv invf uf
    by (rule perturbation_cost_is_fin)
  ultimately show ?thesis
    unfolding cost by (intro list_all_map2[where P = is_fin and Q = is_fin] plus_is_fin)
qed

text \<open>
  Where the rollout records the clipped actions themselves, the returned action is within
  the bounds: \<^verbatim>\<open>u_scale = 1\<close>, a dynamics collaborator that returns the action it was
  given, finite running costs and no terminal cost, bounds with \<open>u_min \<le> 0 \<le> u_max\<close>, and
  finite values in \<^verbatim>\<open>U\<close>, in the inverse covariance and in the noise. All hypotheses are on
  what the cycle is given.
\<close>

lemma unscaled_cycle_within_bounds:
  assumes cmd: "command ext p s = Inr (a, p')"
    and scale: "u_scale p = 1"
    and same: "\<forall>s u r. dynamics ext s u None = Inr r \<longrightarrow> snd r = u"
    and rc: "\<forall>s c. running_cost ext s = Inr c \<longrightarrow> list_all (list_all is_fin) c"
    and no_term: "terminal_state_cost ext = None"
    and lo: "u_min p \<le> 0" and hi: "0 \<le> u_max p"
    and uf: "list_all (list_all is_fin) (U p)"
    and invf: "list_all (list_all is_fin) (noise_sigma_inv p)"
    and nf: "\<forall>k t j. is_fin (noise_draw ext k t j)"
  shows "list_all (\<lambda>x. Fin (u_min p) \<le> x \<and> x \<le> Fin (u_max p)) (action_elements a)"
proof -
  let ?p1 = "p\<lparr> U := torch_roll (U p), state := s \<rparr>"
  have rec: "list_all (list_all (list_all (\<lambda>x. Fin (u_min p) \<le> x \<and> x \<le> Fin (u_max p))))
           (perturbed_action p')"
    using cmd scale same lo hi uf nf by (rule recorded_actions_within_bounds)
  from cmd obtain cost p2 nz om where
    c: "compute_total_cost_batch ext ?p1 = Inr (cost, p2)"
    and p': "p' = p2\<lparr> cost_total_non_zero := nz, omega := om,
                   U := update_U p2 (U p2) om (noise p2) \<rparr>"
    by (rule command_result)
  from c obtain sts acts pa2 where
    p2: "p2 = ?p1\<lparr> noise := map (\<lambda>pk. map2 (map2 (-)) pk (U ?p1)) pa2,
                  perturbed_action := pa2, cost_total := cost, states := sts, actions := acts \<rparr>"
    by (rule ctcb_result)
  have pa: "perturbed_action p2 = perturbed_action p'" and ct: "cost_total p' = cost"
    by (simp_all add: p' p2)
  have "list_all (list_all (list_all is_fin)) (perturbed_action p2)"
    unfolding pa using rec by (auto simp: list_all_iff intro: between_is_fin)
  moreover have "list_all (list_all is_fin) (U ?p1)"
    using uf by (simp add: list_all_iff set_torch_roll)
  moreover have "list_all (list_all is_fin) (noise_sigma_inv ?p1)" using invf by simp
  ultimately have "list_all is_fin cost"
    using c same rc no_term by (intro ctcb_cost_finite[of ext ?p1 cost p2])
  then have "list_all is_fin (cost_total p')" by (simp add: ct)
  with cmd uf show ?thesis using rec by (rule update_within_recorded_bounds)
qed

section \<open>Non-finite costs\<close>



lemma minus_NaN [simp]: "c - NaN = NaN"
  by (cases c) (simp_all add: minus_tval_def)



lemma plus_NaN [simp]: "x + NaN = NaN"
  by (cases x) simp_all


section \<open>The shift of the nominal sequence\<close>

text \<open>
  C6 (amended). The shift at the start of \<^verbatim>\<open>command\<close> (line 160) keeps the length of the
  nominal sequence, and for every \<open>t\<close> before the last position the new entry at \<open>t\<close> is
  the old entry at \<open>t + 1\<close>.
\<close>

theorem roll_shifts_left:
  assumes "t + 1 < length us"
  shows "length (torch_roll us) = length us \<and> torch_roll us ! t = us ! (t + 1)"
  using assms by (cases us) (simp_all add: torch_roll_def nth_append)

text \<open>\<^verbatim>\<open>torch.roll\<close> is circular: the old first entry becomes the last one.\<close>

lemma roll_wraps_first_to_end: "us \<noteq> [] \<Longrightarrow> last (torch_roll us) = hd us"
  by (cases us) (simp_all add: torch_roll_def)

section \<open>Errors of the construction\<close>

lemma mirrored_bounds_accept:
  "0 < mirrored_u_max cfg \<and> mirrored_u_min cfg < 0
     \<longleftrightarrow> 0 \<le> cfg_u_max cfg \<and> cfg_u_min cfg \<le> 0 \<and> (cfg_u_max cfg \<noteq> 0 \<or> cfg_u_min cfg \<noteq> 0)"
  by (auto simp: mirrored_u_max_def mirrored_u_min_def)

text \<open>
  C8 (amended). Construction raises an error when the given covariance is not a square
  matrix or is not symmetric, when \<^verbatim>\<open>u_max\<close> is negative, when \<^verbatim>\<open>u_min\<close> is positive, and
  when both bounds are zero. (A single bound that is zero is replaced by the negated other
  bound, see \<open>mirrored_u_min\<close>, and is accepted.)
\<close>

theorem init_rejects_bad_config:
  assumes "(\<exists>sigma. cfg_noise_sigma cfg = Some sigma \<and> sigma \<noteq> []
              \<and> (\<not> is_mat (length sigma) (length sigma) sigma \<or> \<not> is_symmetric sigma))
     \<or> cfg_u_max cfg < 0 \<or> 0 < cfg_u_min cfg \<or> (cfg_u_max cfg = 0 \<and> cfg_u_min cfg = 0)"
  shows "\<exists>e. MPPIPlanner_init ext cfg n = Inl e"
proof (cases "effective_sigma cfg n")
  case (Inl e)
  then show ?thesis by (simp add: MPPIPlanner_init_def ebind_def)
next
  case (Inr sigma)
  show ?thesis
  proof (cases "0 < mirrored_u_max cfg \<and> mirrored_u_min cfg < 0")
    case False
    then show ?thesis
      using Inr by (auto simp: MPPIPlanner_init_def ebind_def Let_def)
  next
    case True
    with assms mirrored_bounds_accept[of cfg] obtain sg where
      sg: "cfg_noise_sigma cfg = Some sg" "sg \<noteq> []"
      and bad: "\<not> is_mat (length sg) (length sg) sg \<or> \<not> is_symmetric sg"
      by auto
    have "sigma = sg" using Inr sg by (simp add: effective_sigma_def)
    with bad show ?thesis
      using Inr
      by (cases "inverse_kernel ext sg")
         (auto simp: MPPIPlanner_init_def ebind_def Let_def torch_inverse_def
            MultivariateNormal_def)
  qed
qed

section \<open>The rollout of a single trajectory\<close>

lemma Fin0_plus [simp]: "Fin 0 + x = x"
  by (cases x) simp_all

lemma plus_Fin0 [simp]: "x + Fin 0 = x"
  by (cases x) simp_all

lemma div_Fin1 [simp]: "x / Fin 1 = x"
  by (cases x) simp_all

lemma is_ten3_1E:
  assumes "is_ten3 1 r c X"
  obtains m where "X = [m]" and "is_mat r c m"
  using assms by (cases X) (auto simp: is_ten3_def)

lemma is_mat_11E:
  assumes "is_mat 1 1 A"
  obtains a where "A = [[a]]"
proof -
  from assms obtain row where "A = [row]" and "length row = 1"
    by (cases A) (auto simp: is_mat_def)
  moreover from this obtain a where "row = [a]"
    by (cases row) auto
  ultimately show ?thesis using that by blast
qed

lemma rollout_step_single:
  assumes k: "K p = 1" and m: "M p = 1" and step: "rollout_step ext p t v = Inr v'"
    and sh: "is_ten3 1 (T p) (nu p) (r_perturbed_action v)"
  obtains st' u' c where
    "dynamics ext (r_state v) (single_action p (r_perturbed_action v) t) None = Inr (st', u')"
    and "running_cost ext st' = Inr c" and "is_mat 1 1 c"
    and "r_state v' = st'"
    and "r_cost_samples v' = map2 (map2 (+)) (r_cost_samples v) c"
    and "r_cost_var v' = r_cost_var v"
    and "\<forall>t'. t' \<noteq> t \<longrightarrow> r_perturbed_action v' ! 0 ! t' = r_perturbed_action v ! 0 ! t'"
proof -
  from sh obtain rows where pa: "r_perturbed_action v = [rows]"
    by (rule is_ten3_1E)
  define u1 where "u1 = single_action p (r_perturbed_action v) t"
  define pa1 where "pa1 = (if sample_null_action p then [rows[t := replicate (nu p) (Fin 0)]]
                           else [rows])"
  have na: "null_action p t
      (replicate (M p) (map (\<lambda>row. map (\<lambda>a. Fin (u_scale p) * a) (row ! t))
         (r_perturbed_action v))) (r_perturbed_action v) = Inr (u1, pa1)"
    by (simp add: null_action_def k m pa u1_def pa1_def single_action_def Let_def)
  have "\<exists>st' u2. dynamics ext (r_state v) u1 None = Inr (st', u2)"
    using step na
    by (cases "dynamics ext (r_state v) u1 None") (auto simp: rollout_step_def ebind_def Let_def)
  then obtain st' u2 where d: "dynamics ext (r_state v) u1 None = Inr (st', u2)"
    by blast
  have "\<exists>c. running_cost ext st' = Inr c"
    using step na d
    by (cases "running_cost ext st'") (auto simp: rollout_step_def ebind_def Let_def)
  then obtain c where c: "running_cost ext st' = Inr c"
    by blast
  have g: "is_ten3 1 (K p) (nu p) u2" "is_mat (M p) (K p) c"
    using step na d c by (auto simp: rollout_step_def ebind_def Let_def split: if_splits)
  have v': "v' = v\<lparr>
             r_state := st',
             r_perturbed_action := map (\<lambda>k. (pa1 ! k)[t := u2 ! 0 ! k]) [0..<K p],
             r_cost_samples := map2 (map2 (+)) (r_cost_samples v) c,
             r_cost_var :=
               (if 1 < M p
                then map (\<lambda>k. r_cost_var v ! k
                          + torch_var (map (\<lambda>row. row ! k) c) * Fin (rollout_var_discount p ^ t))
                       [0..<K p]
                else r_cost_var v),
             r_states := r_states v @ [st'],
             r_actions := r_actions v @ [u2] \<rparr>"
    using step na d c g by (auto simp: rollout_step_def ebind_def Let_def)
  have "r_perturbed_action v' ! 0 ! t' = r_perturbed_action v ! 0 ! t'" if "t' \<noteq> t" for t'
    using that by (simp add: v' k pa pa1_def)
  moreover have "r_cost_var v' = r_cost_var v" by (simp add: v' m)
  moreover have "r_state v' = st'" "r_cost_samples v' = map2 (map2 (+)) (r_cost_samples v) c"
    by (simp_all add: v')
  moreover have "is_mat 1 1 c" using g(2) by (simp add: k m)
  ultimately show ?thesis using that d c unfolding u1_def by blast
qed

lemma rollout_loop_single:
  assumes "K p = 1" and "M p = 1" and "rollout_loop ext p ts v = Inr v'"
    and "is_ten3 1 (T p) (nu p) (r_perturbed_action v)"
    and "distinct ts" and "\<forall>t \<in> set ts. t < T p" and "r_cost_samples v = [[x]]"
  shows "\<exists>cs. manual_costs ext (r_state v) (map (single_action p (r_perturbed_action v)) ts) = Inr cs
           \<and> length cs = length ts \<and> r_cost_samples v' = [[x + sum_list cs]]
           \<and> r_cost_var v' = r_cost_var v"
  using assms(3-)
proof (induction ts arbitrary: v x)
  case Nil
  then show ?case by simp
next
  case (Cons t ts)
  from Cons.prems(1) obtain v1 where s: "rollout_step ext p t v = Inr v1"
    and l: "rollout_loop ext p ts v1 = Inr v'"
    by (auto simp: ebind_Inr_iff)
  from assms(1,2) s Cons.prems(2) obtain st' u' c where
    d: "dynamics ext (r_state v) (single_action p (r_perturbed_action v) t) None = Inr (st', u')"
    and c: "running_cost ext st' = Inr c" and c11: "is_mat 1 1 c"
    and st: "r_state v1 = st'"
    and cs1: "r_cost_samples v1 = map2 (map2 (+)) (r_cost_samples v) c"
    and cv: "r_cost_var v1 = r_cost_var v"
    and keep: "\<forall>t'. t' \<noteq> t \<longrightarrow> r_perturbed_action v1 ! 0 ! t' = r_perturbed_action v ! 0 ! t'"
    by (rule rollout_step_single)
  from c11 obtain c00 where c00: "c = [[c00]]" by (rule is_mat_11E)
  have x1: "r_cost_samples v1 = [[x + c00]]"
    by (simp add: cs1 Cons.prems(5) c00)
  have sh1: "is_ten3 1 (T p) (nu p) (r_perturbed_action v1)"
    using rollout_step_shape[OF s] Cons.prems(2,4) assms(1) by simp
  have same: "map (single_action p (r_perturbed_action v1)) ts
            = map (single_action p (r_perturbed_action v)) ts"
    using Cons.prems(3) keep by (intro map_cong) (auto simp: single_action_def)
  from Cons.IH[OF l sh1 _ _ x1] Cons.prems(3,4) obtain cs where
    mc: "manual_costs ext (r_state v1) (map (single_action p (r_perturbed_action v1)) ts) = Inr cs"
    and len: "length cs = length ts"
    and res: "r_cost_samples v' = [[x + c00 + sum_list cs]]"
    and cv': "r_cost_var v' = r_cost_var v1"
    by auto
  have "manual_costs ext (r_state v) (map (single_action p (r_perturbed_action v)) (t # ts))
          = Inr (c00 # cs)"
    using d c mc by (simp add: ebind_def st same c00)
  moreover have "r_cost_samples v' = [[x + sum_list (c00 # cs)]]"
    by (simp add: res add.assoc)
  ultimately show ?case using len cv cv' by simp
qed

lemma manual_costs_length: "manual_costs ext st us = Inr cs \<Longrightarrow> length cs = length us"
proof (induction us arbitrary: st cs)
  case Nil
  then show ?case by simp
next
  case (Cons u us)
  then show ?case
    by (auto simp: ebind_Inr_iff split: prod.splits)
qed

text \<open>
  C5. With one sample (\<open>K = 1\<close>), one rollout (\<open>M = 1\<close>) and no terminal cost, the cost
  returned by \<^verbatim>\<open>_compute_rollout_costs\<close> is the sum, over the steps of the horizon, of the
  running costs of the states that the dynamics computes one after the other along that
  trajectory. (The variance term is zero for \<open>M = 1\<close> whatever its weight.)
\<close>

theorem rollout_cost_is_manual_sum:
  assumes "K p = 1" and "M p = 1" and "terminal_state_cost ext = None"
    and "compute_rollout_costs ext p pa = Inr (cost, sts, acts, pa')"
  shows "\<exists>cs. manual_costs ext (initial_state p) (map (single_action p pa) [0..<T p]) = Inr cs
           \<and> length cs = T p \<and> cost = [sum_list cs]"
proof -
  from assms(4) have sh: "is_ten3 (K p) (T p) (nu p) pa"
    by (auto simp: compute_rollout_costs_def split: if_splits)
  define v0 where "v0 = \<lparr> r_state = initial_state p,
                   r_cost_samples = replicate (M p) (replicate (K p) (Fin 0)),
                   r_cost_var = replicate (K p) (Fin 0),
                   r_perturbed_action = pa,
                   r_states = [],
                   r_actions = [] \<rparr>"
  have "\<exists>v. rollout_loop ext p [0..<T p] v0 = Inr v"
    using assms(4) sh
    by (cases "rollout_loop ext p [0..<T p] v0")
       (auto simp: compute_rollout_costs_def ebind_def Let_def v0_def)
  then obtain v where l: "rollout_loop ext p [0..<T p] v0 = Inr v"
    by blast
  have "\<exists>acts0. torch_stack (r_actions v) = Inr acts0"
    using assms(4) sh l
    by (cases "torch_stack (r_actions v)")
       (auto simp: compute_rollout_costs_def ebind_def Let_def v0_def)
  then obtain acts0 where a: "torch_stack (r_actions v) = Inr acts0"
    by blast
  have "\<exists>sts0. torch_stack (r_states v) = Inr sts0"
    using assms(4) sh l a
    by (cases "torch_stack (r_states v)")
       (auto simp: compute_rollout_costs_def ebind_def Let_def v0_def)
  then obtain sts0 where st: "torch_stack (r_states v) = Inr sts0"
    by blast
  have tc: "add_terminal_cost ext p sts0 acts0 (r_cost_samples v) = Inr (r_cost_samples v)"
    by (simp add: add_terminal_cost_def assms(3))
  have cost: "cost = map (\<lambda>k. map (\<lambda>k. Fin 0 + torch_mean (map (\<lambda>row. row ! k) (r_cost_samples v)))
                                [0..<K p] ! k
                          + r_cost_var v ! k * Fin (rollout_var_cost p)) [0..<K p]"
    using assms(4) sh l a st tc
    by (auto simp: compute_rollout_costs_def ebind_def Let_def v0_def)
  have x0: "r_cost_samples v0 = [[Fin 0]]"
    by (simp add: v0_def assms(1,2))
  have sh0: "is_ten3 1 (T p) (nu p) (r_perturbed_action v0)"
    using sh by (simp add: v0_def assms(1))
  from rollout_loop_single[OF assms(1,2) l sh0 _ _ x0] obtain cs where
    mc: "manual_costs ext (r_state v0) (map (single_action p (r_perturbed_action v0)) [0..<T p]) = Inr cs"
    and len: "length cs = length [0..<T p]"
    and res: "r_cost_samples v = [[Fin 0 + sum_list cs]]"
    and cv: "r_cost_var v = r_cost_var v0"
    by auto
  have "cost = [sum_list cs]"
    unfolding cost res cv by (simp add: v0_def assms(1) torch_mean_def)
  moreover have "manual_costs ext (initial_state p) (map (single_action p pa) [0..<T p]) = Inr cs"
    using mc by (simp add: v0_def)
  ultimately show ?thesis using len by simp
qed

section \<open>Evaluation of the concrete planners\<close>

lemmas eval_defs = command_def command_return_def compute_total_cost_batch_def
  compute_rollout_costs_def initial_state_def sample_noise_def action_cost_def
  perturbation_cost_def rollout_step_def null_action_def add_terminal_cost_def
  bound_action_def update_U_def command_weights_def torch_min_def py_div_def
  ensure_non_zero_def torch_stack_def torch_roll_def py_slice_to_def vec_mat_def
  torch_mean_def is_mat_def is_ten3_def ebind_def tmin_def tmax_def minus_tval_def
  zero_tval_def Let_def

lemma upt_0_1: "[0..<1] = [0]"
  by (simp add: upt_rec)

lemma upt_0_2: "[0..<2] = [0, 1]"
  by (simp add: upt_rec)

lemma upt_0_5: "[0..<5] = [0, 1, 2, 3, 4]"
  by (simp add: upt_rec)

lemma unit_cycle:
  "command unit_externals unit_planner unit_state = Inr (Vec [Fin 1], unit_planner_after)"
  by (simp add: eval_defs unit_externals_def unit_planner_def unit_state_def
      unit_planner_after_def upt_0_1)

lemma scaled_cycle:
  "command unit_externals scaled_planner unit_state = Inr (Vec [Fin 2], scaled_planner_after)"
  by (simp add: eval_defs unit_externals_def unit_planner_def unit_state_def
      scaled_planner_def scaled_planner_after_def upt_0_1)


lemma null_cycle:
  "command null_externals null_planner unit_state = Inr (Vec [Fin (1 / 2)], null_planner_after)"
  by (simp add: eval_defs unit_externals_def unit_planner_def unit_state_def
      null_externals_def null_planner_def null_planner_after_def upt_0_1 upt_0_2)

lemma filter_cycle:
  "command filter_externals filter_planner unit_state = Inr (Vec [Fin 0], filter_planner_after)"
  by (simp add: eval_defs unit_externals_def unit_planner_def unit_state_def
      filter_externals_def filter_planner_def filter_planner_after_def upt_0_1 upt_0_5)

lemma walk_rollout:
  "compute_rollout_costs walk_externals walk_planner [[[Fin 1], [Fin 2]]]
     = Inr ([Fin 4], [[[[Fin 1], [Fin 3]]]], [[[[Fin 1], [Fin 2]]]], [[[Fin 1], [Fin 2]]])"
  by (simp add: eval_defs unit_externals_def unit_planner_def walk_externals_def
      walk_planner_def upt_0_1 upt_0_2)

lemma walk_manual:
  "manual_costs walk_externals (initial_state walk_planner)
     (map (single_action walk_planner [[[Fin 1], [Fin 2]]]) [0..<T walk_planner])
     = Inr [Fin 1, Fin 3]"
  by (simp add: eval_defs unit_externals_def unit_planner_def walk_externals_def
      walk_planner_def single_action_def upt_0_1 upt_0_2)

lemma init_zero_min:
  "map_sum id u_min (MPPIPlanner_init unit_externals zero_min_cfg 2) = Inr (- 1)"
  "map_sum id u_max (MPPIPlanner_init unit_externals zero_min_cfg 2) = Inr 1"
  by (simp_all add: MPPIPlanner_init_def effective_sigma_def or_default_def torch_inverse_def
      mirrored_u_max_def mirrored_u_min_def is_mat_def ebind_def Let_def zero_min_cfg_def
      unit_externals_def list_all_iff MultivariateNormal_def is_symmetric_def)

lemma unscaled_cycle_within_bounds_unit:
  "command unit_externals unit_planner unit_state = Inr (Vec [Fin 1], unit_planner_after)
   \<and> list_all (\<lambda>x. Fin (u_min unit_planner) \<le> x \<and> x \<le> Fin (u_max unit_planner))
       (action_elements (Vec [Fin 1]))"
  using unscaled_cycle_within_bounds[OF unit_cycle] unit_cycle
  by (simp add: unit_planner_def unit_externals_def)

text \<open>
  C2 (the code at a failing input). With \<^verbatim>\<open>u_scale = 2\<close>, a nominal sequence of zeros and a
  noise draw of \<open>3/2\<close>, the perturbed action is clipped to \<open>1\<close>; the rollout scales it to
  \<open>2\<close> (line 233) and writes the scaled action back into \<^verbatim>\<open>self.perturbed_action\<close> (line
  245). Line 281 divides \<^verbatim>\<open>self.actions\<close> by \<^verbatim>\<open>u_scale\<close> again, but the noise of line 284 is
  taken from the scaled \<^verbatim>\<open>self.perturbed_action\<close> and the unscaled \<^verbatim>\<open>self.U\<close>: the planner
  returns \<open>2\<close>, above \<^verbatim>\<open>u_max = 1\<close>.
\<close>

theorem scaled_action_out_of_bounds:
  "bound_action scaled_planner [[[Fin (3 / 2)]]] = [[[Fin 1]]]
   \<and> command unit_externals scaled_planner unit_state = Inr (Vec [Fin 2], scaled_planner_after)
   \<and> perturbed_action scaled_planner_after = [[[Fin 2]]]
   \<and> noise scaled_planner_after = [[[Fin 2]]]
   \<and> actions scaled_planner_after = [[[[Fin 1]]]]
   \<and> action_elements (Vec [Fin 2]) = [Fin 2]
   \<and> \<not> Fin 2 \<le> Fin (u_max scaled_planner)"
  using scaled_cycle
  by (simp add: scaled_planner_def scaled_planner_after_def unit_planner_def bound_action_def)

text \<open>
  C3 (the code at a failing input). With \<^verbatim>\<open>sample_null_action\<close> enabled and the cost of the
  last sample at zero, below the threshold, line 179 sets \<^verbatim>\<open>action\<close> to zeros, but line 199
  assigns \<^verbatim>\<open>action\<close> again from \<^verbatim>\<open>self.U\<close>: the planner returns \<open>1/2\<close>, not the zero vector.
\<close>

theorem null_action_not_returned:
  "sample_null_action null_planner
   \<and> command null_externals null_planner unit_state
       = Inr (Vec [Fin (1 / 2)], null_planner_after)
   \<and> last (cost_total null_planner_after) \<le> Fin (1 / 100)"
  using null_cycle by (simp add: null_planner_def null_planner_after_def unit_planner_def)

text \<open>
  C7 (the code at a failing input). With \<^verbatim>\<open>filter_u\<close> enabled the filter is called, but
  line 199 assigns \<^verbatim>\<open>action\<close> again from \<^verbatim>\<open>self.U\<close>, which the filter has not changed: the
  planner returns the first entry \<open>0\<close> of the unfiltered sequence, where the filtered
  sequence starts with \<open>-3/35\<close>.
\<close>

theorem filtered_sequence_not_returned:
  "filter_u filter_planner
   \<and> command filter_externals filter_planner unit_state = Inr (Vec [Fin 0], filter_planner_after)
   \<and> savgol_filter filter_externals (U filter_planner_after) (T filter_planner_after) 2
       = Inr filtered_U
   \<and> hd (U filter_planner_after) = [Fin 0]
   \<and> hd filtered_U = [Fin (- 3 / 35)]"
  using filter_cycle
  by (simp add: filter_planner_def filter_planner_after_def unit_planner_def
      filter_externals_def unit_externals_def filtered_U_def)

theorem rollout_cost_is_manual_sum_witness:
  "K walk_planner = 1 \<and> M walk_planner = 1 \<and> terminal_state_cost walk_externals = None
   \<and> compute_rollout_costs walk_externals walk_planner [[[Fin 1], [Fin 2]]]
       = Inr ([Fin 4], [[[[Fin 1], [Fin 3]]]], [[[[Fin 1], [Fin 2]]]], [[[Fin 1], [Fin 2]]])
   \<and> (\<exists>cs. manual_costs walk_externals (initial_state walk_planner)
              (map (single_action walk_planner [[[Fin 1], [Fin 2]]]) [0..<T walk_planner])
            = Inr cs
          \<and> length cs = T walk_planner \<and> [Fin 4] = [sum_list cs])"
proof -
  have k: "K walk_planner = 1" and m: "M walk_planner = 1"
    and t: "terminal_state_cost walk_externals = None"
    by (simp_all add: walk_planner_def unit_planner_def walk_externals_def unit_externals_def)
  show ?thesis
    using rollout_cost_is_manual_sum[OF k m t walk_rollout] k m t walk_rollout by simp
qed

theorem roll_shifts_left_witness:
  "(0::nat) + 1 < length [[Fin 1], [Fin 2], [Fin 3]]
   \<and> length (torch_roll [[Fin 1], [Fin 2], [Fin 3]]) = length [[Fin 1], [Fin 2], [Fin 3]]
   \<and> torch_roll [[Fin 1], [Fin 2], [Fin 3]] ! 0 = [[Fin 1], [Fin 2], [Fin 3]] ! (0 + 1)"
  using roll_shifts_left[of 0 "[[Fin 1], [Fin 2], [Fin 3]]"] by simp

text \<open>
  C6 as stated fails: after the shift the last entry is the old first entry, not the
  value that the last slot held before.
\<close>

theorem roll_last_is_old_first:
  "torch_roll [[Fin 1], [Fin 2]] ! 1 \<noteq> [[Fin 1], [Fin 2]] ! 1
   \<and> torch_roll [[Fin 1], [Fin 2]] ! 1 = [[Fin 1], [Fin 2]] ! 0"
  by (simp add: torch_roll_def)

lemma init_asymmetric:
  "MPPIPlanner_init unit_externals asymmetric_cfg 2 = Inl ValueError"
  by (simp add: MPPIPlanner_init_def effective_sigma_def or_default_def torch_inverse_def
      mirrored_u_max_def mirrored_u_min_def is_mat_def ebind_def Let_def zero_min_cfg_def
      asymmetric_cfg_def unit_externals_def MultivariateNormal_def is_symmetric_def upt_0_2)

theorem init_rejects_bad_config_witness:
  "cfg_noise_sigma asymmetric_cfg = Some [[1, 2], [0, 1]]
   \<and> is_mat 2 2 [[1, 2], [0, 1 :: real]]
   \<and> \<not> is_symmetric [[1, 2], [0, 1]]
   \<and> (\<exists>e. MPPIPlanner_init unit_externals asymmetric_cfg 2 = Inl e)
   \<and> cfg_u_max negative_max_cfg < 0
   \<and> (\<exists>e. MPPIPlanner_init unit_externals negative_max_cfg 2 = Inl e)"
proof -
  have sg: "cfg_noise_sigma asymmetric_cfg = Some [[1, 2], [0, 1]]"
    by (simp add: asymmetric_cfg_def zero_min_cfg_def)
  have sq: "is_mat 2 2 [[1, 2], [0, 1 :: real]]"
    by (simp add: is_mat_def)
  have asym: "\<not> is_symmetric [[1, 2], [0, 1]]"
    by (simp add: is_symmetric_def upt_0_2)
  have neg: "cfg_u_max negative_max_cfg < 0"
    by (simp add: negative_max_cfg_def zero_min_cfg_def)
  from sg asym have "\<exists>e. MPPIPlanner_init unit_externals asymmetric_cfg 2 = Inl e"
    using init_rejects_bad_config[of asymmetric_cfg unit_externals 2] by simp
  moreover from neg have "\<exists>e. MPPIPlanner_init unit_externals negative_max_cfg 2 = Inl e"
    using init_rejects_bad_config[of negative_max_cfg unit_externals 2] by simp
  ultimately show ?thesis using sg sq asym neg by simp
qed

text \<open>
  C8 as stated fails: the configuration with \<^verbatim>\<open>u_min = 0\<close> and \<^verbatim>\<open>u_max = 1\<close> is accepted,
  with \<^verbatim>\<open>u_min\<close> replaced by \<open>-1\<close>.
\<close>

theorem zero_u_min_accepted:
  "0 \<le> cfg_u_min zero_min_cfg
   \<and> map_sum id u_min (MPPIPlanner_init unit_externals zero_min_cfg 2) = Inr (- 1)
   \<and> map_sum id u_max (MPPIPlanner_init unit_externals zero_min_cfg 2) = Inr 1"
  using init_zero_min by (simp add: zero_min_cfg_def)



end
